theory Spec2Isabelle
  imports Complex_Main
begin

section \<open>JavaScript numbers\<close>

text \<open>
  Every sample, accumulator and result of allan.js is a JavaScript number. A finite
  number is modelled by the real it denotes (rounding, overflow to Infinity and the sign
  of zero are not modelled); \<open>NaN\<close>, \<open>Infinity\<close> and \<open>-Infinity\<close> are values of
  their own, because the code produces them (\<open>0 / 0\<close>, reads past the end of an array,
  the initial value of a running maximum). \<open>undefined\<close> only ever reaches arithmetic,
  where it converts to \<open>NaN\<close>.
\<close>

datatype jsnum = Num real | NaN | PInf | NInf

fun jneg :: "jsnum \<Rightarrow> jsnum" where
  "jneg (Num a) = Num (- a)"
| "jneg NaN = NaN"
| "jneg PInf = NInf"
| "jneg NInf = PInf"

fun jadd :: "jsnum \<Rightarrow> jsnum \<Rightarrow> jsnum" where
  "jadd (Num a) (Num b) = Num (a + b)"
| "jadd NaN _ = NaN"
| "jadd _ NaN = NaN"
| "jadd PInf NInf = NaN"
| "jadd NInf PInf = NaN"
| "jadd PInf _ = PInf"
| "jadd _ PInf = PInf"
| "jadd NInf _ = NInf"
| "jadd _ NInf = NInf"

definition jsub :: "jsnum \<Rightarrow> jsnum \<Rightarrow> jsnum" where
  "jsub a b = jadd a (jneg b)"

fun jmul :: "jsnum \<Rightarrow> jsnum \<Rightarrow> jsnum" where
  "jmul (Num a) (Num b) = Num (a * b)"
| "jmul NaN _ = NaN"
| "jmul _ NaN = NaN"
| "jmul PInf (Num b) = (if b = 0 then NaN else if 0 < b then PInf else NInf)"
| "jmul NInf (Num b) = (if b = 0 then NaN else if 0 < b then NInf else PInf)"
| "jmul (Num a) PInf = (if a = 0 then NaN else if 0 < a then PInf else NInf)"
| "jmul (Num a) NInf = (if a = 0 then NaN else if 0 < a then NInf else PInf)"
| "jmul PInf PInf = PInf"
| "jmul NInf NInf = PInf"
| "jmul PInf NInf = NInf"
| "jmul NInf PInf = NInf"

text \<open>Division; a zero divisor is the positive zero (every zero divisor of allan.js is
  a count, a length or a difference of equal integers).\<close>

fun jdiv :: "jsnum \<Rightarrow> jsnum \<Rightarrow> jsnum" where
  "jdiv (Num a) (Num b) =
     (if b \<noteq> 0 then Num (a / b) else if a = 0 then NaN else if 0 < a then PInf else NInf)"
| "jdiv NaN _ = NaN"
| "jdiv _ NaN = NaN"
| "jdiv (Num a) PInf = Num 0"
| "jdiv (Num a) NInf = Num 0"
| "jdiv PInf (Num b) = (if 0 \<le> b then PInf else NInf)"
| "jdiv NInf (Num b) = (if 0 \<le> b then NInf else PInf)"
| "jdiv PInf PInf = NaN"
| "jdiv PInf NInf = NaN"
| "jdiv NInf PInf = NaN"
| "jdiv NInf NInf = NaN"

fun jsqrt :: "jsnum \<Rightarrow> jsnum" where
  "jsqrt (Num a) = (if 0 \<le> a then Num (sqrt a) else NaN)"
| "jsqrt NaN = NaN"
| "jsqrt PInf = PInf"
| "jsqrt NInf = NaN"

fun jfloor :: "jsnum \<Rightarrow> jsnum" where
  "jfloor (Num a) = Num (of_int \<lfloor>a\<rfloor>)"
| "jfloor v = v"

text \<open>\<open>a > b\<close>; every comparison with \<open>NaN\<close> is false.\<close>

fun jgt :: "jsnum \<Rightarrow> jsnum \<Rightarrow> bool" where
  "jgt (Num a) (Num b) = (b < a)"
| "jgt NaN _ = False"
| "jgt _ NaN = False"
| "jgt PInf PInf = False"
| "jgt PInf _ = True"
| "jgt NInf _ = False"
| "jgt (Num a) NInf = True"
| "jgt (Num a) PInf = False"

definition jlt :: "jsnum \<Rightarrow> jsnum \<Rightarrow> bool" where
  "jlt a b = jgt b a"

text \<open>A count or an index used as a number.\<close>

abbreviation num :: "nat \<Rightarrow> jsnum" where
  "num k \<equiv> Num (real k)"

section \<open>Arrays\<close>

text \<open>
  An array of numbers is a list. \<open>a[i]\<close> past the end is \<open>undefined\<close>, which the
  arithmetic that follows every read converts to \<open>NaN\<close>. \<open>a[i] = v\<close> past the end
  extends the array; the holes it leaves read as \<open>undefined\<close>, hence as \<open>NaN\<close>.
\<close>

definition rd :: "jsnum list \<Rightarrow> nat \<Rightarrow> jsnum" where
  "rd a i = (if i < length a then a ! i else NaN)"

definition arr_set :: "jsnum list \<Rightarrow> nat \<Rightarrow> jsnum \<Rightarrow> jsnum list" where
  "arr_set a i v =
     (if i < length a then a[i := v] else a @ replicate (i - length a) NaN @ [v])"

text \<open>A read at an index that is itself a JavaScript number: only a natural number
  within the array is an element.\<close>

definition rd_num :: "jsnum list \<Rightarrow> jsnum \<Rightarrow> jsnum" where
  "rd_num a k =
     (case k of
        Num r \<Rightarrow> (if 0 \<le> r \<and> r = of_int \<lfloor>r\<rfloor> then rd a (nat \<lfloor>r\<rfloor>) else NaN)
      | _ \<Rightarrow> NaN)"

text \<open>A read at an index computed by a subtraction, which can be negative.\<close>

definition rd_int :: "jsnum list \<Rightarrow> int \<Rightarrow> jsnum" where
  "rd_int a k = (if 0 \<le> k then rd a (nat k) else NaN)"

section \<open>The averaging factor\<close>

text \<open>
  The argument \<open>m\<close> of a public operation is a natural number or omitted (\<open>None\<close>).
  \<open>m = m || 1\<close> replaces the falsy values, \<open>0\<close> and \<open>undefined\<close>, by \<open>1\<close>.
  \<open>arg_num\<close> is the argument read as a number before that replacement.
\<close>

definition coerce :: "nat option \<Rightarrow> nat" where
  "coerce marg = (case marg of None \<Rightarrow> 1 | Some k \<Rightarrow> (if k = 0 then 1 else k))"

definition arg_num :: "nat option \<Rightarrow> jsnum" where
  "arg_num marg = (case marg of None \<Rightarrow> NaN | Some k \<Rightarrow> num k)"

definition MIN_SAMPLES :: nat where
  "MIN_SAMPLES = 3"

section \<open>Conversion primitives\<close>

text \<open>\<open>for (var i = 0, len = x.length; i + 1 < len; i++) y[i] = (x[i + 1] - x[i]) / m\<close>\<close>

function phaseToFreq_loop :: "jsnum list \<Rightarrow> nat \<Rightarrow> nat \<Rightarrow> jsnum list \<Rightarrow> jsnum list" where
  "phaseToFreq_loop xs m i ys =
     (if i + 1 < length xs
      then phaseToFreq_loop xs m (i + 1)
             (arr_set ys i (jdiv (jsub (rd xs (i + 1)) (rd xs i)) (num m)))
      else ys)"
  by pat_completeness auto
termination
  by (relation "measure (\<lambda>(xs, m, i, ys). length xs - i)") auto

declare phaseToFreq_loop.simps [simp del]

definition phaseToFreq :: "jsnum list \<Rightarrow> nat option \<Rightarrow> jsnum list" where
  "phaseToFreq xs marg = phaseToFreq_loop xs (coerce marg) 0 []"

text \<open>\<open>for (var i = 1, len = y.length; i <= len; i++) x[i] = x[i - 1] + y[i - 1] * m\<close>\<close>

function freqToPhase_loop :: "jsnum list \<Rightarrow> nat \<Rightarrow> nat \<Rightarrow> jsnum list \<Rightarrow> jsnum list" where
  "freqToPhase_loop ys m i xs =
     (if i \<le> length ys
      then freqToPhase_loop ys m (i + 1)
             (arr_set xs i (jadd (rd xs (i - 1)) (jmul (rd ys (i - 1)) (num m))))
      else xs)"
  by pat_completeness auto
termination
  by (relation "measure (\<lambda>(ys, m, i, xs). length ys + 1 - i)") auto

declare freqToPhase_loop.simps [simp del]

definition freqToPhase :: "jsnum list \<Rightarrow> nat option \<Rightarrow> jsnum list" where
  "freqToPhase ys marg = freqToPhase_loop ys (coerce marg) 1 [Num 0]"

section \<open>The Dataset\<close>

text \<open>\<open>this.values\<close>: one array per statistic, indexed by the averaging factor. An
  index that was never assigned reads as \<open>undefined\<close> (\<open>None\<close>).\<close>

record stat_values =
  xavg :: "nat \<rightharpoonup> jsnum"
  xmax :: "nat \<rightharpoonup> jsnum"
  xmin :: "nat \<rightharpoonup> jsnum"
  yavg :: "nat \<rightharpoonup> jsnum"
  ymax :: "nat \<rightharpoonup> jsnum"
  ymin :: "nat \<rightharpoonup> jsnum"
  stdev :: "nat \<rightharpoonup> jsnum"
  adev :: "nat \<rightharpoonup> jsnum"
  oadev :: "nat \<rightharpoonup> jsnum"
  mdev :: "nat \<rightharpoonup> jsnum"
  tdev :: "nat \<rightharpoonup> jsnum"
  hdev :: "nat \<rightharpoonup> jsnum"
  ohdev :: "nat \<rightharpoonup> jsnum"
  totdev :: "nat \<rightharpoonup> jsnum"
  mtotdev :: "nat \<rightharpoonup> jsnum"
  ttotdev :: "nat \<rightharpoonup> jsnum"
  htotdev :: "nat \<rightharpoonup> jsnum"

record dataset =
  ds_id :: nat
  ds_name :: string
  ds_x :: "jsnum list"
  ds_y :: "jsnum list"
  ds_values :: stat_values

definition empty_values :: stat_values where
  "empty_values =
     \<lparr>xavg = Map.empty, xmax = Map.empty, xmin = Map.empty,
      yavg = Map.empty, ymax = Map.empty, ymin = Map.empty,
      stdev = Map.empty, adev = Map.empty, oadev = Map.empty, mdev = Map.empty,
      tdev = Map.empty, hdev = Map.empty, ohdev = Map.empty, totdev = Map.empty,
      mtotdev = Map.empty, ttotdev = Map.empty, htotdev = Map.empty\<rparr>"

text \<open>The constructor. \<open>datasetId\<close> is the module's counter, passed in and returned;
  \<open>now\<close> stands for \<open>new Date().toString()\<close>, the name used when the argument is
  omitted or the empty string.\<close>

definition Dataset :: "nat \<Rightarrow> string option \<Rightarrow> string \<Rightarrow> dataset \<times> nat" where
  "Dataset datasetId nm now =
     (\<lparr>ds_id = datasetId + 1,
       ds_name = (case nm of None \<Rightarrow> now | Some s \<Rightarrow> (if s = [] then now else s)),
       ds_x = [], ds_y = [], ds_values = empty_values\<rparr>,
      datasetId + 1)"

definition loadPhaseFromArray :: "dataset \<Rightarrow> jsnum list \<Rightarrow> dataset" where
  "loadPhaseFromArray ds phase = ds\<lparr>ds_x := phase, ds_y := phaseToFreq phase None\<rparr>"

definition loadFreqFromArray :: "dataset \<Rightarrow> jsnum list \<Rightarrow> dataset" where
  "loadFreqFromArray ds freq = ds\<lparr>ds_y := freq, ds_x := freqToPhase freq None\<rparr>"

section \<open>Windowed statistics\<close>

text \<open>\<open>_arrayAvg(i, m, a)\<close>: \<open>for (var j = 0; j < m; j++) avg += a[i + j]\<close>, then
  \<open>avg /= m\<close>.\<close>

function arrayAvg_loop :: "jsnum list \<Rightarrow> nat \<Rightarrow> nat \<Rightarrow> nat \<Rightarrow> jsnum \<Rightarrow> jsnum" where
  "arrayAvg_loop a i m j avg =
     (if j < m then arrayAvg_loop a i m (j + 1) (jadd avg (rd a (i + j))) else avg)"
  by pat_completeness auto
termination
  by (relation "measure (\<lambda>(a, i, m, j, avg). m - j)") auto

declare arrayAvg_loop.simps [simp del]

definition arrayAvg :: "nat \<Rightarrow> nat \<Rightarrow> jsnum list \<Rightarrow> jsnum" where
  "arrayAvg i m a = jdiv (arrayAvg_loop a i m 0 (Num 0)) (num m)"

definition phaseAvg :: "dataset \<Rightarrow> nat \<Rightarrow> nat \<Rightarrow> jsnum" where
  "phaseAvg ds i m = arrayAvg i m (ds_x ds)"

definition freqAvg :: "dataset \<Rightarrow> nat \<Rightarrow> nat \<Rightarrow> jsnum" where
  "freqAvg ds i m = arrayAvg i m (ds_y ds)"

text \<open>
  The loops \<open>for (var i = 0; i < len; i += m)\<close> of the windowed statistics. They are
  written once for an array \<open>a\<close>, which is \<open>this.x\<close> in the phase getters and
  \<open>this.y\<close> in the frequency getters. \<open>m\<close> is the factor after \<open>m = m || 1\<close>, never
  \<open>0\<close>; the test \<open>0 < m\<close> only makes the recursion well-founded. Each function
  returns the accumulator together with the indices \<open>i\<close> at which the body ran.
\<close>

function avg_loop :: "jsnum list \<Rightarrow> nat \<Rightarrow> nat \<Rightarrow> nat \<Rightarrow> jsnum \<Rightarrow> nat list \<Rightarrow> jsnum \<times> nat list" where
  "avg_loop a m len i sm vis =
     (if i < len \<and> 0 < m
      then avg_loop a m len (i + m) (jadd sm (arrayAvg i m a)) (vis @ [i])
      else (sm, vis))"
  by pat_completeness auto
termination
  by (relation "measure (\<lambda>(a, m, len, i, sm, vis). len - i)") auto

declare avg_loop.simps [simp del]

function max_loop :: "jsnum list \<Rightarrow> nat \<Rightarrow> nat \<Rightarrow> nat \<Rightarrow> jsnum \<Rightarrow> nat list \<Rightarrow> jsnum \<times> nat list" where
  "max_loop a m len i cur vis =
     (if i < len \<and> 0 < m
      then (let b = arrayAvg i m a
            in max_loop a m len (i + m) (if jgt b cur then b else cur) (vis @ [i]))
      else (cur, vis))"
  by pat_completeness auto
termination
  by (relation "measure (\<lambda>(a, m, len, i, cur, vis). len - i)") auto

declare max_loop.simps [simp del]

function min_loop :: "jsnum list \<Rightarrow> nat \<Rightarrow> nat \<Rightarrow> nat \<Rightarrow> jsnum \<Rightarrow> nat list \<Rightarrow> jsnum \<times> nat list" where
  "min_loop a m len i cur vis =
     (if i < len \<and> 0 < m
      then (let b = arrayAvg i m a
            in min_loop a m len (i + m) (if jlt b cur then b else cur) (vis @ [i]))
      else (cur, vis))"
  by pat_completeness auto
termination
  by (relation "measure (\<lambda>(a, m, len, i, cur, vis). len - i)") auto

declare min_loop.simps [simp del]

text \<open>The value a getter stores on a cache miss, as a function of the array.\<close>

definition avg_val :: "jsnum list \<Rightarrow> nat \<Rightarrow> jsnum" where
  "avg_val a m =
     (let len = length a; sm = fst (avg_loop a m len 0 (Num 0) [])
      in jdiv (jmul sm (num m)) (num len))"

definition max_val :: "jsnum list \<Rightarrow> nat \<Rightarrow> jsnum" where
  "max_val a m = fst (max_loop a m (length a) 0 NInf [])"

definition min_val :: "jsnum list \<Rightarrow> nat \<Rightarrow> jsnum" where
  "min_val a m = fst (min_loop a m (length a) 0 PInf [])"

text \<open>
  Every getter has the shape
  \<open>m = m || 1; if (this.values.s[m] === undefined) { ...; this.values.s[m] = v } return this.values.s[m]\<close>:
  it returns the stored entry when there is one, and otherwise computes, stores and
  returns. The model returns the value and the dataset after the call.
  \<open>getPhaseMax\<close> and its three siblings keep the running extremum in the entry itself;
  the entry after the loop is the accumulator of \<open>max_loop\<close> or \<open>min_loop\<close>.
\<close>

definition getPhaseAvg :: "dataset \<Rightarrow> nat option \<Rightarrow> jsnum \<times> dataset" where
  "getPhaseAvg ds marg =
     (let m = coerce marg in
      case xavg (ds_values ds) m of
        Some v \<Rightarrow> (v, ds)
      | None \<Rightarrow>
          (let v = avg_val (ds_x ds) m
           in (v, ds\<lparr>ds_values := (ds_values ds)\<lparr>xavg := (xavg (ds_values ds))(m \<mapsto> v)\<rparr>\<rparr>)))"

definition getFreqAvg :: "dataset \<Rightarrow> nat option \<Rightarrow> jsnum \<times> dataset" where
  "getFreqAvg ds marg =
     (let m = coerce marg in
      case yavg (ds_values ds) m of
        Some v \<Rightarrow> (v, ds)
      | None \<Rightarrow>
          (let v = avg_val (ds_y ds) m
           in (v, ds\<lparr>ds_values := (ds_values ds)\<lparr>yavg := (yavg (ds_values ds))(m \<mapsto> v)\<rparr>\<rparr>)))"

definition getPhaseMax :: "dataset \<Rightarrow> nat option \<Rightarrow> jsnum \<times> dataset" where
  "getPhaseMax ds marg =
     (let m = coerce marg in
      case xmax (ds_values ds) m of
        Some v \<Rightarrow> (v, ds)
      | None \<Rightarrow>
          (let v = max_val (ds_x ds) m
           in (v, ds\<lparr>ds_values := (ds_values ds)\<lparr>xmax := (xmax (ds_values ds))(m \<mapsto> v)\<rparr>\<rparr>)))"

definition getFreqMax :: "dataset \<Rightarrow> nat option \<Rightarrow> jsnum \<times> dataset" where
  "getFreqMax ds marg =
     (let m = coerce marg in
      case ymax (ds_values ds) m of
        Some v \<Rightarrow> (v, ds)
      | None \<Rightarrow>
          (let v = max_val (ds_y ds) m
           in (v, ds\<lparr>ds_values := (ds_values ds)\<lparr>ymax := (ymax (ds_values ds))(m \<mapsto> v)\<rparr>\<rparr>)))"

definition getPhaseMin :: "dataset \<Rightarrow> nat option \<Rightarrow> jsnum \<times> dataset" where
  "getPhaseMin ds marg =
     (let m = coerce marg in
      case xmin (ds_values ds) m of
        Some v \<Rightarrow> (v, ds)
      | None \<Rightarrow>
          (let v = min_val (ds_x ds) m
           in (v, ds\<lparr>ds_values := (ds_values ds)\<lparr>xmin := (xmin (ds_values ds))(m \<mapsto> v)\<rparr>\<rparr>)))"

definition getFreqMin :: "dataset \<Rightarrow> nat option \<Rightarrow> jsnum \<times> dataset" where
  "getFreqMin ds marg =
     (let m = coerce marg in
      case ymin (ds_values ds) m of
        Some v \<Rightarrow> (v, ds)
      | None \<Rightarrow>
          (let v = min_val (ds_y ds) m
           in (v, ds\<lparr>ds_values := (ds_values ds)\<lparr>ymin := (ymin (ds_values ds))(m \<mapsto> v)\<rparr>\<rparr>)))"

text \<open>\<open>getStdev\<close>: \<open>a = this.getFreqAvg(m)\<close>, itself memoized, then
  \<open>v = this._freqAvg(i, m) - a; sum += v * v\<close> and
  \<open>Math.sqrt(sum / (len / m - 1))\<close>.\<close>

function stdev_loop :: "jsnum list \<Rightarrow> nat \<Rightarrow> nat \<Rightarrow> jsnum \<Rightarrow> nat \<Rightarrow> jsnum \<Rightarrow> jsnum" where
  "stdev_loop a m len avg i sm =
     (if i < len \<and> 0 < m
      then (let v = jsub (arrayAvg i m a) avg
            in stdev_loop a m len avg (i + m) (jadd sm (jmul v v)))
      else sm)"
  by pat_completeness auto
termination
  by (relation "measure (\<lambda>(a, m, len, avg, i, sm). len - i)") auto

declare stdev_loop.simps [simp del]

definition stdev_val :: "jsnum list \<Rightarrow> nat \<Rightarrow> jsnum \<Rightarrow> jsnum" where
  "stdev_val a m avg =
     (let len = length a; sm = stdev_loop a m len avg 0 (Num 0)
      in jsqrt (jdiv sm (jsub (jdiv (num len) (num m)) (Num 1))))"

definition getStdev :: "dataset \<Rightarrow> nat option \<Rightarrow> jsnum \<times> dataset" where
  "getStdev ds marg =
     (let m = coerce marg in
      case stdev (ds_values ds) m of
        Some v \<Rightarrow> (v, ds)
      | None \<Rightarrow>
          (let (a, ds1) = getFreqAvg ds (Some m);
               v = stdev_val (ds_y ds1) m a
           in (v, ds1\<lparr>ds_values := (ds_values ds1)\<lparr>stdev := (stdev (ds_values ds1))(m \<mapsto> v)\<rparr>\<rparr>)))"

section \<open>Classical deviation estimators\<close>

text \<open>The bounds \<open>len - 2 * m\<close> and \<open>len - 3 * m\<close> can be negative, so the loop
  tests are written over the integers. Each loop returns \<open>sum\<close> and the count \<open>n\<close>.\<close>

definition diff2 :: "jsnum list \<Rightarrow> nat \<Rightarrow> nat \<Rightarrow> jsnum" where
  \<comment> \<open>\<open>x[i + 2 * m] - 2 * x[i + m] + x[i]\<close>\<close>
  "diff2 xs m i = jadd (jsub (rd xs (i + 2 * m)) (jmul (Num 2) (rd xs (i + m)))) (rd xs i)"

definition diff3 :: "jsnum list \<Rightarrow> nat \<Rightarrow> nat \<Rightarrow> jsnum" where
  \<comment> \<open>\<open>x[i + 3 * m] - 3 * x[i + 2 * m] + 3 * x[i + m] - x[i]\<close>\<close>
  "diff3 xs m i =
     jsub (jadd (jsub (rd xs (i + 3 * m)) (jmul (Num 3) (rd xs (i + 2 * m))))
                (jmul (Num 3) (rd xs (i + m))))
          (rd xs i)"

text \<open>\<open>getAdev\<close>: \<open>for (var i = 0, len = this.x.length, v; i < len - 2 * m; i++)\<close>\<close>

function adev_loop :: "jsnum list \<Rightarrow> nat \<Rightarrow> nat \<Rightarrow> nat \<Rightarrow> jsnum \<Rightarrow> nat \<Rightarrow> jsnum \<times> nat" where
  "adev_loop xs m len i sm n =
     (if int i < int len - 2 * int m
      then (let v = diff2 xs m i in adev_loop xs m len (i + 1) (jadd sm (jmul v v)) (n + 1))
      else (sm, n))"
  by pat_completeness auto
termination
  by (relation "measure (\<lambda>(xs, m, len, i, sm, n). len - i)") auto

declare adev_loop.simps [simp del]

definition adev_val :: "jsnum list \<Rightarrow> nat \<Rightarrow> jsnum" where
  "adev_val xs m =
     (let (sm, n) = adev_loop xs m (length xs) 0 (Num 0) 0
      in if n > MIN_SAMPLES then jdiv (jsqrt (jdiv sm (num (2 * n)))) (num m) else Num 0)"

definition getAdev :: "dataset \<Rightarrow> nat option \<Rightarrow> jsnum \<times> dataset" where
  "getAdev ds marg =
     (let m = coerce marg in
      case adev (ds_values ds) m of
        Some v \<Rightarrow> (v, ds)
      | None \<Rightarrow>
          (let v = adev_val (ds_x ds) m
           in (v, ds\<lparr>ds_values := (ds_values ds)\<lparr>adev := (adev (ds_values ds))(m \<mapsto> v)\<rparr>\<rparr>)))"

text \<open>\<open>getOadev\<close>: the same body, \<open>i += m\<close>.\<close>

function oadev_loop :: "jsnum list \<Rightarrow> nat \<Rightarrow> nat \<Rightarrow> nat \<Rightarrow> jsnum \<Rightarrow> nat \<Rightarrow> jsnum \<times> nat" where
  "oadev_loop xs m len i sm n =
     (if int i < int len - 2 * int m \<and> 0 < m
      then (let v = diff2 xs m i in oadev_loop xs m len (i + m) (jadd sm (jmul v v)) (n + 1))
      else (sm, n))"
  by pat_completeness auto
termination
  by (relation "measure (\<lambda>(xs, m, len, i, sm, n). len - i)") auto

declare oadev_loop.simps [simp del]

definition oadev_val :: "jsnum list \<Rightarrow> nat \<Rightarrow> jsnum" where
  "oadev_val xs m =
     (let (sm, n) = oadev_loop xs m (length xs) 0 (Num 0) 0
      in if n > MIN_SAMPLES then jdiv (jsqrt (jdiv sm (num (2 * n)))) (num m) else Num 0)"

definition getOadev :: "dataset \<Rightarrow> nat option \<Rightarrow> jsnum \<times> dataset" where
  "getOadev ds marg =
     (let m = coerce marg in
      case oadev (ds_values ds) m of
        Some v \<Rightarrow> (v, ds)
      | None \<Rightarrow>
          (let v = oadev_val (ds_x ds) m
           in (v, ds\<lparr>ds_values := (ds_values ds)\<lparr>oadev := (oadev (ds_values ds))(m \<mapsto> v)\<rparr>\<rparr>)))"

text \<open>\<open>getMdev\<close>: a first loop \<open>i < len - 2 * m && i < m\<close> adds second differences
  to \<open>v\<close>; then \<open>sum += v * v; n++\<close>; a second loop \<open>i < len - 3 * m\<close> adds a third
  difference to \<open>v\<close> and \<open>v * v\<close> to \<open>sum\<close>.\<close>

function mdev_loop1 :: "jsnum list \<Rightarrow> nat \<Rightarrow> nat \<Rightarrow> nat \<Rightarrow> jsnum \<Rightarrow> jsnum" where
  "mdev_loop1 xs m len i v =
     (if int i < int len - 2 * int m \<and> i < m
      then mdev_loop1 xs m len (i + 1) (jadd v (diff2 xs m i))
      else v)"
  by pat_completeness auto
termination
  by (relation "measure (\<lambda>(xs, m, len, i, v). m - i)") auto

declare mdev_loop1.simps [simp del]

function mdev_loop2 :: "jsnum list \<Rightarrow> nat \<Rightarrow> nat \<Rightarrow> nat \<Rightarrow> jsnum \<Rightarrow> jsnum \<Rightarrow> nat \<Rightarrow> jsnum \<times> nat" where
  "mdev_loop2 xs m len i v sm n =
     (if int i < int len - 3 * int m
      then (let v' = jadd v (diff3 xs m i)
            in mdev_loop2 xs m len (i + 1) v' (jadd sm (jmul v' v')) (n + 1))
      else (sm, n))"
  by pat_completeness auto
termination
  by (relation "measure (\<lambda>(xs, m, len, i, v, sm, n). len - i)") auto

declare mdev_loop2.simps [simp del]

definition mdev_acc :: "jsnum list \<Rightarrow> nat \<Rightarrow> jsnum \<times> nat" where
  "mdev_acc xs m =
     (let len = length xs;
          v = mdev_loop1 xs m len 0 (Num 0)
      in mdev_loop2 xs m len 0 v (jadd (Num 0) (jmul v v)) (0 + 1))"

definition mdev_val :: "jsnum list \<Rightarrow> nat \<Rightarrow> jsnum" where
  "mdev_val xs m =
     (let (sm, n) = mdev_acc xs m
      in if n > MIN_SAMPLES then jdiv (jsqrt (jdiv sm (num (2 * m * m * n)))) (num m)
         else Num 0)"

definition getMdev :: "dataset \<Rightarrow> nat option \<Rightarrow> jsnum \<times> dataset" where
  "getMdev ds marg =
     (let m = coerce marg in
      case mdev (ds_values ds) m of
        Some v \<Rightarrow> (v, ds)
      | None \<Rightarrow>
          (let v = mdev_val (ds_x ds) m
           in (v, ds\<lparr>ds_values := (ds_values ds)\<lparr>mdev := (mdev (ds_values ds))(m \<mapsto> v)\<rparr>\<rparr>)))"

text \<open>\<open>getTdev\<close>: \<open>dev = this.getMdev(m); this.values.tdev[m] = dev * m / Math.sqrt(3)\<close>\<close>

definition getTdev :: "dataset \<Rightarrow> nat option \<Rightarrow> jsnum \<times> dataset" where
  "getTdev ds marg =
     (let m = coerce marg in
      case tdev (ds_values ds) m of
        Some v \<Rightarrow> (v, ds)
      | None \<Rightarrow>
          (let (dev, ds1) = getMdev ds (Some m);
               v = jdiv (jmul dev (num m)) (jsqrt (Num 3))
           in (v, ds1\<lparr>ds_values := (ds_values ds1)\<lparr>tdev := (tdev (ds_values ds1))(m \<mapsto> v)\<rparr>\<rparr>)))"

text \<open>\<open>getHdev\<close> and \<open>getOhdev\<close>: third differences, \<open>i++\<close> and \<open>i += m\<close>.\<close>

function hdev_loop :: "jsnum list \<Rightarrow> nat \<Rightarrow> nat \<Rightarrow> nat \<Rightarrow> jsnum \<Rightarrow> nat \<Rightarrow> jsnum \<times> nat" where
  "hdev_loop xs m len i sm n =
     (if int i < int len - 3 * int m
      then (let v = diff3 xs m i in hdev_loop xs m len (i + 1) (jadd sm (jmul v v)) (n + 1))
      else (sm, n))"
  by pat_completeness auto
termination
  by (relation "measure (\<lambda>(xs, m, len, i, sm, n). len - i)") auto

declare hdev_loop.simps [simp del]

definition hdev_val :: "jsnum list \<Rightarrow> nat \<Rightarrow> jsnum" where
  "hdev_val xs m =
     (let (sm, n) = hdev_loop xs m (length xs) 0 (Num 0) 0
      in if n > MIN_SAMPLES then jdiv (jsqrt (jdiv sm (num (6 * n)))) (num m) else Num 0)"

definition getHdev :: "dataset \<Rightarrow> nat option \<Rightarrow> jsnum \<times> dataset" where
  "getHdev ds marg =
     (let m = coerce marg in
      case hdev (ds_values ds) m of
        Some v \<Rightarrow> (v, ds)
      | None \<Rightarrow>
          (let v = hdev_val (ds_x ds) m
           in (v, ds\<lparr>ds_values := (ds_values ds)\<lparr>hdev := (hdev (ds_values ds))(m \<mapsto> v)\<rparr>\<rparr>)))"

function ohdev_loop :: "jsnum list \<Rightarrow> nat \<Rightarrow> nat \<Rightarrow> nat \<Rightarrow> jsnum \<Rightarrow> nat \<Rightarrow> jsnum \<times> nat" where
  "ohdev_loop xs m len i sm n =
     (if int i < int len - 3 * int m \<and> 0 < m
      then (let v = diff3 xs m i in ohdev_loop xs m len (i + m) (jadd sm (jmul v v)) (n + 1))
      else (sm, n))"
  by pat_completeness auto
termination
  by (relation "measure (\<lambda>(xs, m, len, i, sm, n). len - i)") auto

declare ohdev_loop.simps [simp del]

definition ohdev_val :: "jsnum list \<Rightarrow> nat \<Rightarrow> jsnum" where
  "ohdev_val xs m =
     (let (sm, n) = ohdev_loop xs m (length xs) 0 (Num 0) 0
      in if n > MIN_SAMPLES then jdiv (jsqrt (jdiv sm (num (6 * n)))) (num m) else Num 0)"

definition getOhdev :: "dataset \<Rightarrow> nat option \<Rightarrow> jsnum \<times> dataset" where
  "getOhdev ds marg =
     (let m = coerce marg in
      case ohdev (ds_values ds) m of
        Some v \<Rightarrow> (v, ds)
      | None \<Rightarrow>
          (let v = ohdev_val (ds_x ds) m
           in (v, ds\<lparr>ds_values := (ds_values ds)\<lparr>ohdev := (ohdev (ds_values ds))(m \<mapsto> v)\<rparr>\<rparr>)))"

section \<open>Total deviation estimators\<close>

text \<open>
  \<open>getTotdev\<close>: \<open>nx = this.x.slice(0)\<close> is a new array, so \<open>unshift\<close> and \<open>push\<close>
  change \<open>nx\<close> and never \<open>this.x\<close>. The first loop,
  \<open>for (var i = 1; i < len - 1; i++)\<close>, reflects the samples at both ends and counts
  the reflected samples of one end in \<open>e\<close>.
\<close>

function totdev_ext_loop :: "jsnum list \<Rightarrow> nat \<Rightarrow> nat \<Rightarrow> jsnum list \<Rightarrow> nat \<Rightarrow> jsnum list \<times> nat" where
  "totdev_ext_loop xs len i nx e =
     (if int i < int len - 1
      then totdev_ext_loop xs len (i + 1)
             ((jsub (jmul (Num 2) (rd xs 0)) (rd xs i) # nx)
                @ [jsub (jmul (Num 2) (rd xs (len - 1))) (rd xs (len - 1 - i))])
             (e + 1)
      else (nx, e))"
  by pat_completeness auto
termination
  by (relation "measure (\<lambda>(xs, len, i, nx, e). len - i)") auto

declare totdev_ext_loop.simps [simp del]

text \<open>\<open>v = nx[e + i - m] - 2 * nx[e + i] + nx[e + i + m]; sum += v * v; n++\<close>\<close>

function totdev_sum_loop :: "jsnum list \<Rightarrow> nat \<Rightarrow> nat \<Rightarrow> nat \<Rightarrow> nat \<Rightarrow> jsnum \<Rightarrow> nat \<Rightarrow> jsnum \<times> nat" where
  "totdev_sum_loop nx e m len i sm n =
     (if int i < int len - 1
      then (let v = jadd (jsub (rd_int nx (int e + int i - int m))
                               (jmul (Num 2) (rd nx (e + i))))
                         (rd nx (e + i + m))
            in totdev_sum_loop nx e m len (i + 1) (jadd sm (jmul v v)) (n + 1))
      else (sm, n))"
  by pat_completeness auto
termination
  by (relation "measure (\<lambda>(nx, e, m, len, i, sm, n). len - i)") auto

declare totdev_sum_loop.simps [simp del]

definition totdev_acc :: "jsnum list \<Rightarrow> nat \<Rightarrow> jsnum \<times> nat" where
  "totdev_acc xs m =
     (let len = length xs;
          (nx, e) = totdev_ext_loop xs len 1 xs 0
      in if int e + int len + int m - 1 \<le> 3 * int len - 4
         then (let (sm, n) = totdev_sum_loop nx e m len 1 (Num 0) 0
               in (jdiv sm (Num 2), n))
         else (Num 0, 0))"

definition totdev_val :: "jsnum list \<Rightarrow> nat \<Rightarrow> jsnum" where
  "totdev_val xs m =
     (let (sm, n) = totdev_acc xs m
      in if n > MIN_SAMPLES then jdiv (jsqrt (jdiv sm (num n))) (num m) else Num 0)"

definition getTotdev :: "dataset \<Rightarrow> nat option \<Rightarrow> jsnum \<times> dataset" where
  "getTotdev ds marg =
     (let m = coerce marg in
      case totdev (ds_values ds) m of
        Some v \<Rightarrow> (v, ds)
      | None \<Rightarrow>
          (let v = totdev_val (ds_x ds) m
           in (v, ds\<lparr>ds_values := (ds_values ds)\<lparr>totdev := (totdev (ds_values ds))(m \<mapsto> v)\<rparr>\<rparr>)))"

text \<open>
  \<open>getMtotdev\<close> and \<open>getHtotdev\<close> run the same loops, the first on \<open>this.x\<close> and
  the second on \<open>this.y\<close>; the loops are written once for an array \<open>a\<close>.
  \<open>half = Math.floor((3 * m + 1) / 2)\<close> stands among the \<open>var\<close> initialisers, before
  \<open>m = m || 1\<close>: it is computed from the argument as passed.
\<close>

definition half_of :: "nat option \<Rightarrow> jsnum" where
  "half_of marg = jfloor (jdiv (jadd (jmul (Num 3) (arg_num marg)) (Num 1)) (Num 2))"

text \<open>\<open>for (var i = 0, h = Math.floor(3 * m / 2); i < h; i++)
  f += (a[n + i + half] - a[n + i]) / half\<close>; the loop also returns \<open>i\<close>, the divisor
  of \<open>f /= i\<close>.\<close>

function mtot_f_loop :: "jsnum list \<Rightarrow> nat \<Rightarrow> jsnum \<Rightarrow> nat \<Rightarrow> nat \<Rightarrow> jsnum \<Rightarrow> jsnum \<times> nat" where
  "mtot_f_loop a n half h i f =
     (if i < h
      then mtot_f_loop a n half h (i + 1)
             (jadd f (jdiv (jsub (rd_num a (jadd (num (n + i)) half)) (rd a (n + i))) half))
      else (f, i))"
  by pat_completeness auto
termination
  by (relation "measure (\<lambda>(a, n, half, h, i, f). h - i)") auto

declare mtot_f_loop.simps [simp del]

text \<open>\<open>for (var i = 0; i <= 3 * m - 1; i++) zx[i] = a[n + i] - f * i\<close>\<close>

function mtot_zx_loop :: "jsnum list \<Rightarrow> nat \<Rightarrow> nat \<Rightarrow> jsnum \<Rightarrow> nat \<Rightarrow> jsnum list \<Rightarrow> jsnum list" where
  "mtot_zx_loop a n m f i zx =
     (if int i \<le> 3 * int m - 1
      then mtot_zx_loop a n m f (i + 1) (arr_set zx i (jsub (rd a (n + i)) (jmul f (num i))))
      else zx)"
  by pat_completeness auto
termination
  by (relation "measure (\<lambda>(a, n, m, f, i, zx). 3 * m - i)") auto

declare mtot_zx_loop.simps [simp del]

text \<open>\<open>nx[n + i] = zx[3 * m - i - 1]; nx[n + 3 * m + i] = zx[i];
  nx[n + 6 * m + i] = zx[3 * m - i - 1]\<close>\<close>

function mtot_nx_loop :: "jsnum list \<Rightarrow> nat \<Rightarrow> nat \<Rightarrow> nat \<Rightarrow> jsnum list \<Rightarrow> jsnum list" where
  "mtot_nx_loop zx n m i nx =
     (if int i \<le> 3 * int m - 1
      then (let nx1 = arr_set nx (n + i) (rd zx (3 * m - i - 1));
                nx2 = arr_set nx1 (n + 3 * m + i) (rd zx i);
                nx3 = arr_set nx2 (n + 6 * m + i) (rd zx (3 * m - i - 1))
            in mtot_nx_loop zx n m (i + 1) nx3)
      else nx)"
  by pat_completeness auto
termination
  by (relation "measure (\<lambda>(zx, n, m, i, nx). 3 * m - i)") auto

declare mtot_nx_loop.simps [simp del]

text \<open>\<open>for (var j = 0; j < m; j++) { av1 += nx[i + 3 * m + j];
  av2 += nx[i + 3 * m + m + j]; av3 += nx[i + 3 * m + 2 * m + j] }\<close>\<close>

function mtot_av_loop :: "jsnum list \<Rightarrow> int \<Rightarrow> nat \<Rightarrow> nat \<Rightarrow> jsnum \<times> jsnum \<times> jsnum \<Rightarrow> jsnum \<times> jsnum \<times> jsnum" where
  "mtot_av_loop nx i m j (av1, av2, av3) =
     (if j < m
      then mtot_av_loop nx i m (j + 1)
             (jadd av1 (rd_int nx (i + 3 * int m + int j)),
              jadd av2 (rd_int nx (i + 3 * int m + int m + int j)),
              jadd av3 (rd_int nx (i + 3 * int m + 2 * int m + int j)))
      else (av1, av2, av3))"
  by pat_completeness auto
termination
  by (relation "measure (\<lambda>(nx, i, m, j, avs). m - j)") auto

declare mtot_av_loop.simps [simp del]

text \<open>\<open>for (var i = n - 3 * m, av1, av2, av3; i <= n + 3 * m - 1; i++)\<close>, with
  \<open>v = av1 - 2 * av2 + av3; sum += v * v\<close> after the three averages are divided by
  \<open>m\<close>. (\<open>v\<close> has no \<open>var\<close> in these two functions: it is a variable of the global
  object, and nothing else reads it.)\<close>

function mtot_sum_loop :: "jsnum list \<Rightarrow> nat \<Rightarrow> nat \<Rightarrow> int \<Rightarrow> jsnum \<Rightarrow> jsnum" where
  "mtot_sum_loop nx n m i sm =
     (if i \<le> int n + 3 * int m - 1
      then (let (av1, av2, av3) = mtot_av_loop nx i m 0 (Num 0, Num 0, Num 0);
                av1 = jdiv av1 (num m);
                av2 = jdiv av2 (num m);
                av3 = jdiv av3 (num m);
                v = jadd (jsub av1 (jmul (Num 2) av2)) av3
            in mtot_sum_loop nx n m (i + 1) (jadd sm (jmul v v)))
      else sm)"
  by pat_completeness auto
termination
  by (relation "measure (\<lambda>(nx, n, m, i, sm). nat (int n + 3 * int m - i))") auto

declare mtot_sum_loop.simps [simp del]

text \<open>The outer loop \<open>for (n = 0; n < len - 3 * m + 1; n++)\<close>, ending with
  \<open>d += sum / 6 * m\<close>. It returns \<open>n\<close> and \<open>d\<close>.\<close>

function mtot_loop :: "jsnum list \<Rightarrow> nat \<Rightarrow> nat \<Rightarrow> jsnum \<Rightarrow> nat \<Rightarrow> jsnum \<Rightarrow> nat \<times> jsnum" where
  "mtot_loop a m len half n d =
     (if int n < int len - 3 * int m + 1
      then (let (f, i) = mtot_f_loop a n half ((3 * m) div 2) 0 (Num 0);
                f = jdiv f (num i);
                zx = mtot_zx_loop a n m f 0 [];
                nx = mtot_nx_loop zx n m 0 [];
                sm = mtot_sum_loop nx n m (int n - 3 * int m) (Num 0)
            in mtot_loop a m len half (n + 1) (jadd d (jmul (jdiv sm (Num 6)) (num m))))
      else (n, d))"
  by pat_completeness auto
termination
  by (relation "measure (\<lambda>(a, m, len, half, n, d). len + 1 - n)") auto

declare mtot_loop.simps [simp del]

definition bias :: jsnum where
  "bias = Num (73 / 100)"

definition mtotdev_val :: "jsnum list \<Rightarrow> nat \<Rightarrow> jsnum \<Rightarrow> jsnum" where
  "mtotdev_val xs m half =
     (let len = length xs;
          (n, d) = mtot_loop xs m len half 0 (Num 0);
          d = jdiv d (Num (of_int (2 * (int len - 3 * int m + 1))))
      in if n > MIN_SAMPLES then jdiv (jsqrt (jdiv d bias)) (num (m * m)) else Num 0)"

definition getMtotdev :: "dataset \<Rightarrow> nat option \<Rightarrow> jsnum \<times> dataset" where
  "getMtotdev ds marg =
     (let half = half_of marg;
          m = coerce marg in
      case mtotdev (ds_values ds) m of
        Some v \<Rightarrow> (v, ds)
      | None \<Rightarrow>
          (let v = mtotdev_val (ds_x ds) m half
           in (v, ds\<lparr>ds_values := (ds_values ds)\<lparr>mtotdev := (mtotdev (ds_values ds))(m \<mapsto> v)\<rparr>\<rparr>)))"

definition getTtotdev :: "dataset \<Rightarrow> nat option \<Rightarrow> jsnum \<times> dataset" where
  "getTtotdev ds marg =
     (let m = coerce marg in
      case ttotdev (ds_values ds) m of
        Some v \<Rightarrow> (v, ds)
      | None \<Rightarrow>
          (let (dev, ds1) = getMtotdev ds (Some m);
               v = jdiv (jmul dev (num m)) (jsqrt (Num 3))
           in (v, ds1\<lparr>ds_values := (ds_values ds1)\<lparr>ttotdev := (ttotdev (ds_values ds1))(m \<mapsto> v)\<rparr>\<rparr>)))"

definition htotdev_val :: "jsnum list \<Rightarrow> nat \<Rightarrow> jsnum \<Rightarrow> jsnum" where
  "htotdev_val ys m half =
     (let len = length ys;
          (n, d) = mtot_loop ys m len half 0 (Num 0);
          d = jdiv d (Num (of_int (6 * (int len - 3 * int m + 1))))
      in if n > MIN_SAMPLES then jsqrt d else Num 0)"

definition getHtotdev :: "dataset \<Rightarrow> nat option \<Rightarrow> jsnum \<times> dataset" where
  "getHtotdev ds marg =
     (let half = half_of marg;
          m = coerce marg in
      case htotdev (ds_values ds) m of
        Some v \<Rightarrow> (v, ds)
      | None \<Rightarrow>
          (let v = htotdev_val (ds_y ds) m half
           in (v, ds\<lparr>ds_values := (ds_values ds)\<lparr>htotdev := (htotdev (ds_values ds))(m \<mapsto> v)\<rparr>\<rparr>)))"

section \<open>Statements of the specification, and the notions they need\<close>

text \<open>A stored entry is never recomputed, so what a getter returns depends on what the
  table holds. \<open>unstale tab m v\<close>: the entry for \<open>m\<close> is absent, or it is the value
  \<open>v\<close> that the current arrays give. Both cases occur in a dataset that was loaded
  once (\<open>loaded_once\<close> below), and no other.\<close>

definition unstale :: "(nat \<rightharpoonup> jsnum) \<Rightarrow> nat \<Rightarrow> jsnum \<Rightarrow> bool" where
  "unstale tab m v = (tab m = None \<or> tab m = Some v)"

text \<open>A dataset as the constructor leaves it.\<close>

definition new_ds :: dataset where
  "new_ds = fst (Dataset 0 None ''now'')"

text \<open>The conversions on sequences of reals: successive differences divided by \<open>m\<close>,
  and running sums of the samples times \<open>m\<close> from a start value.\<close>

fun diffs :: "real list \<Rightarrow> real \<Rightarrow> real list" where
  "diffs (a # b # r) m = (b - a) / m # diffs (b # r) m"
| "diffs _ m = []"

fun integ :: "real \<Rightarrow> real list \<Rightarrow> real \<Rightarrow> real list" where
  "integ a [] m = [a]"
| "integ a (v # r) m = a # integ (a + v * m) r m"

text \<open>ADEV as the specification words it: \<open>v = x[i+2m] - 2x[i+m] + x[i]\<close> for every
  \<open>i\<close> with \<open>0 \<le> i < N - 2m\<close>, \<open>n\<close> the number of terms, and
  \<open>sqrt(sum / (2n)) / m\<close> if \<open>n > 3\<close>, else \<open>0\<close>.\<close>

definition adev_spec :: "jsnum list \<Rightarrow> nat \<Rightarrow> jsnum" where
  "adev_spec xs m =
     (let N = length xs;
          vs = map (\<lambda>i. jadd (jsub (xs ! (i + 2 * m)) (jmul (Num 2) (xs ! (i + m)))) (xs ! i))
                   [0..<N - 2 * m];
          sm = foldl jadd (Num 0) (map (\<lambda>v. jmul v v) vs);
          n = length vs
      in if n > 3 then jdiv (jsqrt (jdiv sm (num (2 * n)))) (num m) else Num 0)"

text \<open>The count \<open>n\<close> of accumulated terms that each estimator compares with
  \<open>MIN_SAMPLES\<close>; in \<open>getMtotdev\<close> and \<open>getHtotdev\<close> it is the counter of the
  outer loop.\<close>

definition adev_n :: "jsnum list \<Rightarrow> nat \<Rightarrow> nat" where
  "adev_n xs m = snd (adev_loop xs m (length xs) 0 (Num 0) 0)"

definition oadev_n :: "jsnum list \<Rightarrow> nat \<Rightarrow> nat" where
  "oadev_n xs m = snd (oadev_loop xs m (length xs) 0 (Num 0) 0)"

definition mdev_n :: "jsnum list \<Rightarrow> nat \<Rightarrow> nat" where
  "mdev_n xs m = snd (mdev_acc xs m)"

definition hdev_n :: "jsnum list \<Rightarrow> nat \<Rightarrow> nat" where
  "hdev_n xs m = snd (hdev_loop xs m (length xs) 0 (Num 0) 0)"

definition ohdev_n :: "jsnum list \<Rightarrow> nat \<Rightarrow> nat" where
  "ohdev_n xs m = snd (ohdev_loop xs m (length xs) 0 (Num 0) 0)"

definition totdev_n :: "jsnum list \<Rightarrow> nat \<Rightarrow> nat" where
  "totdev_n xs m = snd (totdev_acc xs m)"

definition mtot_n :: "jsnum list \<Rightarrow> nat \<Rightarrow> jsnum \<Rightarrow> nat" where
  "mtot_n a m half = fst (mtot_loop a m (length a) half 0 (Num 0))"

text \<open>The datasets a caller can obtain: the constructor's, and the result of any load
  or getter on one of them.\<close>

inductive reachable :: "dataset \<Rightarrow> bool" where
  r_new: "reachable (fst (Dataset c nm now))"
| r_loadPhase: "reachable ds \<Longrightarrow> reachable (loadPhaseFromArray ds a)"
| r_loadFreq: "reachable ds \<Longrightarrow> reachable (loadFreqFromArray ds a)"
| r_getPhaseAvg: "reachable ds \<Longrightarrow> reachable (snd (getPhaseAvg ds marg))"
| r_getFreqAvg: "reachable ds \<Longrightarrow> reachable (snd (getFreqAvg ds marg))"
| r_getPhaseMax: "reachable ds \<Longrightarrow> reachable (snd (getPhaseMax ds marg))"
| r_getFreqMax: "reachable ds \<Longrightarrow> reachable (snd (getFreqMax ds marg))"
| r_getPhaseMin: "reachable ds \<Longrightarrow> reachable (snd (getPhaseMin ds marg))"
| r_getFreqMin: "reachable ds \<Longrightarrow> reachable (snd (getFreqMin ds marg))"
| r_getStdev: "reachable ds \<Longrightarrow> reachable (snd (getStdev ds marg))"
| r_getAdev: "reachable ds \<Longrightarrow> reachable (snd (getAdev ds marg))"
| r_getOadev: "reachable ds \<Longrightarrow> reachable (snd (getOadev ds marg))"
| r_getMdev: "reachable ds \<Longrightarrow> reachable (snd (getMdev ds marg))"
| r_getTdev: "reachable ds \<Longrightarrow> reachable (snd (getTdev ds marg))"
| r_getHdev: "reachable ds \<Longrightarrow> reachable (snd (getHdev ds marg))"
| r_getOhdev: "reachable ds \<Longrightarrow> reachable (snd (getOhdev ds marg))"
| r_getTotdev: "reachable ds \<Longrightarrow> reachable (snd (getTotdev ds marg))"
| r_getMtotdev: "reachable ds \<Longrightarrow> reachable (snd (getMtotdev ds marg))"
| r_getTtotdev: "reachable ds \<Longrightarrow> reachable (snd (getTtotdev ds marg))"
| r_getHtotdev: "reachable ds \<Longrightarrow> reachable (snd (getHtotdev ds marg))"

text \<open>\<open>dev * m / Math.sqrt(3)\<close>, and the link it keeps between the \<open>tdev\<close> and
  \<open>mdev\<close> entries: \<open>getTdev\<close> stores an entry only together with the \<open>mdev\<close> entry
  it was computed from.\<close>

definition tdev_of :: "jsnum \<Rightarrow> nat \<Rightarrow> jsnum" where
  "tdev_of dev m = jdiv (jmul dev (num m)) (jsqrt (Num 3))"

definition tdev_link :: "stat_values \<Rightarrow> bool" where
  "tdev_link vs = (\<forall>m t. tdev vs m = Some t \<longrightarrow> (\<exists>d. mdev vs m = Some d \<and> t = tdev_of d m))"

text \<open>The sample arrays, the identifier and the name are the same in both datasets.\<close>

definition same_samples :: "dataset \<Rightarrow> dataset \<Rightarrow> bool" where
  "same_samples ds ds' =
     (ds_x ds' = ds_x ds \<and> ds_y ds' = ds_y ds \<and> ds_id ds' = ds_id ds \<and> ds_name ds' = ds_name ds)"

text \<open>The windowed average as the specification words it: the block averages
  \<open>mean(a[i..i+m-1])\<close> at \<open>i = 0, m, 2m, ...\<close> below \<open>len\<close>, summed, times \<open>m\<close>,
  divided by \<open>len\<close>. A block that runs past the end of the array has \<open>undefined\<close>
  among its samples.\<close>

definition block_mean :: "jsnum list \<Rightarrow> nat \<Rightarrow> nat \<Rightarrow> jsnum" where
  "block_mean a i m = jdiv (foldl jadd (Num 0) (map (rd a) [i..<i + m])) (num m)"

definition avg_spec :: "jsnum list \<Rightarrow> nat \<Rightarrow> jsnum" where
  "avg_spec a m =
     (let len = length a;
          starts = map (\<lambda>k. k * m) [0..<(len + m - 1) div m];
          sm = foldl jadd (Num 0) (map (\<lambda>i. block_mean a i m) starts)
      in jdiv (jmul sm (num m)) (num len))"

text \<open>TOTDEV as the specification words it. The phase sequence reflected at both ends:
  \<open>2x[0] - x[i]\<close> before it and \<open>2x[N-1] - x[N-1-i]\<close> after it, for \<open>i = 1..N-2\<close>,
  so that sample \<open>x[j]\<close> stands at index \<open>e + j\<close> with \<open>e = N - 2\<close>. When the guard
  \<open>e + len + m - 1 <= 3*len - 4\<close> holds, the centred second differences at
  \<open>i = 1..N-2\<close> are squared and summed, the sum is halved, and the result is
  \<open>sqrt(sum / n) / m\<close> if \<open>n > 3\<close>; otherwise, and when the guard fails, it is \<open>0\<close>.\<close>

definition mirror_ext :: "jsnum list \<Rightarrow> jsnum list" where
  "mirror_ext xs =
     (let N = length xs
      in map (\<lambda>i. jsub (jmul (Num 2) (xs ! 0)) (xs ! i)) (rev [1..<N - 1])
         @ xs
         @ map (\<lambda>i. jsub (jmul (Num 2) (xs ! (N - 1))) (xs ! (N - 1 - i))) [1..<N - 1])"

definition totdev_spec :: "jsnum list \<Rightarrow> nat \<Rightarrow> jsnum" where
  "totdev_spec xs m =
     (let N = length xs; e = N - 2; ext = mirror_ext xs
      in if int e + int N + int m - 1 \<le> 3 * int N - 4
         then (let vs = map (\<lambda>i. jadd (jsub (ext ! (e + i - m)) (jmul (Num 2) (ext ! (e + i))))
                                       (ext ! (e + i + m)))
                            [1..<N - 1];
                   sm = jdiv (foldl jadd (Num 0) (map (\<lambda>v. jmul v v) vs)) (Num 2);
                   n = length vs
               in if n > 3 then jdiv (jsqrt (jdiv sm (num n))) (num m) else Num 0)
         else Num 0)"

text \<open>The lifecycle of the specification: a dataset is created, loaded once, and then
  queried any number of times. (\<open>getMtotdev\<close> and \<open>getHtotdev\<close> are queried with
  \<open>m \<ge> 1\<close> here: with a falsy \<open>m\<close> they store a value that \<open>m = 1\<close> would not.)\<close>

inductive loaded_once :: "dataset \<Rightarrow> bool" where
  lo_phase: "loaded_once (loadPhaseFromArray (fst (Dataset c nm now)) a)"
| lo_freq: "loaded_once (loadFreqFromArray (fst (Dataset c nm now)) a)"
| lo_getPhaseAvg: "loaded_once ds \<Longrightarrow> loaded_once (snd (getPhaseAvg ds marg))"
| lo_getFreqAvg: "loaded_once ds \<Longrightarrow> loaded_once (snd (getFreqAvg ds marg))"
| lo_getPhaseMax: "loaded_once ds \<Longrightarrow> loaded_once (snd (getPhaseMax ds marg))"
| lo_getFreqMax: "loaded_once ds \<Longrightarrow> loaded_once (snd (getFreqMax ds marg))"
| lo_getPhaseMin: "loaded_once ds \<Longrightarrow> loaded_once (snd (getPhaseMin ds marg))"
| lo_getFreqMin: "loaded_once ds \<Longrightarrow> loaded_once (snd (getFreqMin ds marg))"
| lo_getStdev: "loaded_once ds \<Longrightarrow> loaded_once (snd (getStdev ds marg))"
| lo_getAdev: "loaded_once ds \<Longrightarrow> loaded_once (snd (getAdev ds marg))"
| lo_getOadev: "loaded_once ds \<Longrightarrow> loaded_once (snd (getOadev ds marg))"
| lo_getMdev: "loaded_once ds \<Longrightarrow> loaded_once (snd (getMdev ds marg))"
| lo_getTdev: "loaded_once ds \<Longrightarrow> loaded_once (snd (getTdev ds marg))"
| lo_getHdev: "loaded_once ds \<Longrightarrow> loaded_once (snd (getHdev ds marg))"
| lo_getOhdev: "loaded_once ds \<Longrightarrow> loaded_once (snd (getOhdev ds marg))"
| lo_getTotdev: "loaded_once ds \<Longrightarrow> loaded_once (snd (getTotdev ds marg))"
| lo_getMtotdev: "loaded_once ds \<Longrightarrow> 1 \<le> m \<Longrightarrow> loaded_once (snd (getMtotdev ds (Some m)))"
| lo_getTtotdev: "loaded_once ds \<Longrightarrow> loaded_once (snd (getTtotdev ds marg))"
| lo_getHtotdev: "loaded_once ds \<Longrightarrow> 1 \<le> m \<Longrightarrow> loaded_once (snd (getHtotdev ds (Some m)))"

text \<open>Every entry of every table is the value the current arrays give.\<close>

definition tab_current :: "(nat \<rightharpoonup> jsnum) \<Rightarrow> (nat \<Rightarrow> jsnum) \<Rightarrow> bool" where
  "tab_current tab f = (\<forall>m. unstale tab m (f m))"

definition current :: "dataset \<Rightarrow> bool" where
  "current ds =
     (tab_current (xavg (ds_values ds)) (avg_val (ds_x ds)) \<and>
      tab_current (xmax (ds_values ds)) (max_val (ds_x ds)) \<and>
      tab_current (xmin (ds_values ds)) (min_val (ds_x ds)) \<and>
      tab_current (yavg (ds_values ds)) (avg_val (ds_y ds)) \<and>
      tab_current (ymax (ds_values ds)) (max_val (ds_y ds)) \<and>
      tab_current (ymin (ds_values ds)) (min_val (ds_y ds)) \<and>
      tab_current (stdev (ds_values ds)) (\<lambda>m. stdev_val (ds_y ds) m (avg_val (ds_y ds) m)) \<and>
      tab_current (adev (ds_values ds)) (adev_val (ds_x ds)) \<and>
      tab_current (oadev (ds_values ds)) (oadev_val (ds_x ds)) \<and>
      tab_current (mdev (ds_values ds)) (mdev_val (ds_x ds)) \<and>
      tab_current (tdev (ds_values ds)) (\<lambda>m. tdev_of (mdev_val (ds_x ds) m) m) \<and>
      tab_current (hdev (ds_values ds)) (hdev_val (ds_x ds)) \<and>
      tab_current (ohdev (ds_values ds)) (ohdev_val (ds_x ds)) \<and>
      tab_current (totdev (ds_values ds)) (totdev_val (ds_x ds)) \<and>
      tab_current (mtotdev (ds_values ds)) (\<lambda>m. mtotdev_val (ds_x ds) m (half_of (Some m))) \<and>
      tab_current (ttotdev (ds_values ds))
        (\<lambda>m. tdev_of (mtotdev_val (ds_x ds) m (half_of (Some m))) m) \<and>
      tab_current (htotdev (ds_values ds)) (\<lambda>m. htotdev_val (ds_y ds) m (half_of (Some m))))"

section \<open>The averaging factor after coercion\<close>

lemma coerce_pos: "0 < coerce marg"
  by (simp add: coerce_def split: option.splits)

lemma coerce_Some: "1 \<le> m \<Longrightarrow> coerce (Some m) = m"
  by (simp add: coerce_def)

lemma new_ds_values: "ds_values new_ds = empty_values"
  by (simp add: new_ds_def Dataset_def)

section \<open>The conversions in exact arithmetic\<close>

lemma length_diffs: "length (diffs xs m) = length xs - 1"
  by (induction xs m rule: diffs.induct) auto

lemma length_integ: "length (integ a ys m) = Suc (length ys)"
  by (induction ys arbitrary: a) auto

lemma integ_ne: "integ a ys m \<noteq> []"
  by (cases ys) auto

lemma integ_snoc:
  "integ a (ys @ [v]) m = integ a ys m @ [last (integ a ys m) + v * m]"
  by (induction ys arbitrary: a) (auto simp: integ_ne)

lemma diffs_drop_step:
  "i + 1 < length xs \<Longrightarrow>
   diffs (drop i xs) m = (xs ! (i + 1) - xs ! i) / m # diffs (drop (i + 1) xs) m"
  by (metis Cons_nth_drop_Suc Suc_eq_plus1 Suc_lessD diffs.simps(1))

lemma diffs_drop_end: "\<not> i + 1 < length xs \<Longrightarrow> diffs (drop i xs) m = []"
proof -
  assume "\<not> i + 1 < length xs"
  then have "length (diffs (drop i xs) m) = 0"
    by (simp add: length_diffs)
  then show ?thesis by simp
qed

lemma phaseToFreq_loop_diffs:
  "length acc = i \<Longrightarrow> m \<noteq> 0 \<Longrightarrow>
   phaseToFreq_loop (map Num xs) m i (map Num acc) = map Num (acc @ diffs (drop i xs) (real m))"
proof (induction "length xs - i" arbitrary: i acc)
  case 0
  then show ?case
    by (subst phaseToFreq_loop.simps) (simp add: diffs_drop_end)
next
  case (Suc k)
  show ?case
  proof (cases "i + 1 < length xs")
    case True
    let ?d = "(xs ! (i + 1) - xs ! i) / real m"
    have "phaseToFreq_loop (map Num xs) m i (map Num acc) =
          phaseToFreq_loop (map Num xs) m (i + 1) (map Num (acc @ [?d]))"
      using True Suc.prems
      by (subst phaseToFreq_loop.simps) (simp add: arr_set_def rd_def jsub_def)
    also have "\<dots> = map Num ((acc @ [?d]) @ diffs (drop (i + 1) xs) (real m))"
      using Suc.hyps(1)[of "i + 1" "acc @ [?d]"] Suc.hyps(2) Suc.prems True by simp
    finally show ?thesis using True by (simp add: diffs_drop_step)
  next
    case False
    then show ?thesis
      by (subst phaseToFreq_loop.simps) (simp add: diffs_drop_end)
  qed
qed

lemma freqToPhase_loop_integ:
  "1 \<le> i \<Longrightarrow> i \<le> length ys + 1 \<Longrightarrow>
   freqToPhase_loop (map Num ys) m i (map Num (integ 0 (take (i - 1) ys) (real m))) =
   map Num (integ 0 ys (real m))"
proof (induction "length ys + 1 - i" arbitrary: i)
  case 0
  then show ?case
    by (subst freqToPhase_loop.simps) simp
next
  case (Suc k)
  show ?case
  proof (cases "i \<le> length ys")
    case True
    let ?p = "integ 0 (take (i - 1) ys) (real m)"
    have len: "length ?p = i" using Suc.prems True by (simp add: length_integ)
    have tk: "take i ys = take (i - 1) ys @ [ys ! (i - 1)]"
      using Suc.prems True
      by (metis Suc_diff_1 less_eq_Suc_le take_Suc_conv_app_nth One_nat_def)
    have lst: "?p ! (i - 1) = last ?p"
      using len integ_ne[of 0 "take (i - 1) ys" "real m"] by (simp add: last_conv_nth)
    have ilt: "i - 1 < length ys" "i - 1 < i" using Suc.prems True by simp_all
    have "freqToPhase_loop (map Num ys) m i (map Num ?p) =
          freqToPhase_loop (map Num ys) m (i + 1) (map Num (integ 0 (take i ys) (real m)))"
      using True Suc.prems len lst ilt
      by (subst freqToPhase_loop.simps) (simp add: arr_set_def rd_def tk integ_snoc)
    also have "\<dots> = map Num (integ 0 ys (real m))"
      using Suc.hyps(1)[of "i + 1"] Suc.hyps(2) Suc.prems True by simp
    finally show ?thesis .
  next
    case False
    then have "i = length ys + 1" using Suc.prems by simp
    then show ?thesis
      by (subst freqToPhase_loop.simps) simp
  qed
qed

lemma phaseToFreq_reals:
  "phaseToFreq (map Num xs) marg = map Num (diffs xs (real (coerce marg)))"
  using phaseToFreq_loop_diffs[of "[]" 0 "coerce marg" xs] coerce_pos[of marg]
  by (simp add: phaseToFreq_def)

lemma freqToPhase_reals:
  "freqToPhase (map Num ys) marg = map Num (integ 0 ys (real (coerce marg)))"
  using freqToPhase_loop_integ[of 1 ys "coerce marg"]
  by (simp add: freqToPhase_def)

lemma diffs_integ: "m \<noteq> 0 \<Longrightarrow> diffs (integ a ys m) m = ys"
proof (induction ys arbitrary: a)
  case Nil
  then show ?case by simp
next
  case (Cons v r)
  then show ?case by (cases r) auto
qed

lemma integ_diffs: "m \<noteq> 0 \<Longrightarrow> integ a (diffs (a # xs) m) m = a # xs"
  by (induction xs arbitrary: a) auto

text \<open>
  With the exact numbers of this model the two conversions undo each other, for the
  default factor (\<open>marg = None\<close>) and for any factor given to both. This is a fact
  about the formulas only. The source computes in doubles, where every sum and
  difference rounds and a sum can overflow to \<open>Infinity\<close>; the model has neither, so
  the lemma gives no bound on the error of the round trip the code performs.
\<close>

lemma roundtrip_exact_arithmetic:
  "phaseToFreq (freqToPhase (map Num ys) marg) marg = map Num ys \<and>
   freqToPhase (phaseToFreq (map Num (0 # xs)) marg) marg = map Num (0 # xs)"
proof -
  have m: "real (coerce marg) \<noteq> 0" using coerce_pos[of marg] by simp
  have "phaseToFreq (freqToPhase (map Num ys) marg) marg = map Num ys"
    unfolding freqToPhase_reals phaseToFreq_reals diffs_integ[OF m] ..
  moreover have "freqToPhase (phaseToFreq (map Num (0 # xs)) marg) marg = map Num (0 # xs)"
    unfolding phaseToFreq_reals freqToPhase_reals integ_diffs[OF m] ..
  ultimately show ?thesis ..
qed

section \<open>ADEV\<close>

lemma diff2_in_range:
  "i + 2 * m < length xs \<Longrightarrow>
   diff2 xs m i = jadd (jsub (xs ! (i + 2 * m)) (jmul (Num 2) (xs ! (i + m)))) (xs ! i)"
  by (simp add: diff2_def rd_def)

lemma adev_loop_fold:
  "adev_loop xs m (length xs) i sm n =
     (foldl jadd sm (map (\<lambda>j. jmul (diff2 xs m j) (diff2 xs m j)) [i..<length xs - 2 * m]),
      n + (length xs - 2 * m - i))"
proof (induction xs m "length xs" i sm n rule: adev_loop.induct)
  case (1 xs m i sm n)
  let ?t = "\<lambda>j. jmul (diff2 xs m j) (diff2 xs m j)"
  show ?case
  proof (cases "int i < int (length xs) - 2 * int m")
    case True
    then have lt: "i < length xs - 2 * m" by linarith
    have "adev_loop xs m (length xs) i sm n =
          adev_loop xs m (length xs) (i + 1) (jadd sm (?t i)) (n + 1)"
      using True by (subst adev_loop.simps) (simp add: Let_def)
    also have "\<dots> = (foldl jadd (jadd sm (?t i)) (map ?t [i + 1..<length xs - 2 * m]),
                      n + 1 + (length xs - 2 * m - (i + 1)))"
      using "1.hyps"[OF True refl] by simp
    also have "\<dots> = (foldl jadd sm (map ?t [i..<length xs - 2 * m]),
                      n + (length xs - 2 * m - i))"
      using lt by (simp add: upt_conv_Cons)
    finally show ?thesis .
  next
    case False
    then have "\<not> i < length xs - 2 * m" by linarith
    then show ?thesis using False
      by (subst adev_loop.simps) simp
  qed
qed

lemma adev_val_spec: "adev_val xs m = adev_spec xs m"
proof -
  have eq: "map (\<lambda>j. jmul (diff2 xs m j) (diff2 xs m j)) [0..<length xs - 2 * m] =
        map (\<lambda>v. jmul v v)
          (map (\<lambda>i. jadd (jsub (xs ! (i + 2 * m)) (jmul (Num 2) (xs ! (i + m)))) (xs ! i))
             [0..<length xs - 2 * m])"
    by (simp add: diff2_in_range)
  show ?thesis
    unfolding adev_val_def adev_spec_def adev_loop_fold Let_def eq
    by (simp add: MIN_SAMPLES_def)
qed

lemma getAdev_unstale:
  "unstale (adev (ds_values ds)) (coerce marg) (adev_val (ds_x ds) (coerce marg)) \<Longrightarrow>
   fst (getAdev ds marg) = adev_val (ds_x ds) (coerce marg)"
  by (auto simp: getAdev_def unstale_def Let_def)

text \<open>
  C1. For a dataset with phase array \<open>x\<close> of length \<open>N\<close> and \<open>m \<ge> 1\<close>,
  \<open>getAdev(m)\<close> accumulates the squares of \<open>v = x[i+2m] - 2x[i+m] + x[i]\<close> over every
  \<open>i\<close> with \<open>0 \<le> i < N - 2m\<close>, the index advancing by \<open>1\<close>, counts the terms as \<open>n\<close>
  and returns \<open>sqrt(sum / (2n)) / m\<close> when \<open>n > 3\<close> and \<open>0\<close> otherwise. The entry of
  the table for \<open>m\<close> is absent or was stored from the current array.
\<close>

theorem getAdev_formula:
  assumes "1 \<le> m"
    and "unstale (adev (ds_values ds)) m (adev_val (ds_x ds) m)"
  shows "fst (getAdev ds (Some m)) = adev_spec (ds_x ds) m"
  using assms getAdev_unstale[of ds "Some m"] by (simp add: adev_val_spec coerce_Some)

theorem getAdev_formula_witness:
  "(1::nat) \<le> 1 \<and>
   unstale (adev (ds_values (loadPhaseFromArray new_ds (map Num [0, 1, 4, 9, 16, 25])))) 1
     (adev_val (ds_x (loadPhaseFromArray new_ds (map Num [0, 1, 4, 9, 16, 25]))) 1) \<and>
   fst (getAdev (loadPhaseFromArray new_ds (map Num [0, 1, 4, 9, 16, 25])) (Some 1)) = Num (sqrt 2)"
proof -
  let ?ds = "loadPhaseFromArray new_ds (map Num [0, 1, 4, 9, 16, 25])"
  have u: "unstale (adev (ds_values ?ds)) 1 (adev_val (ds_x ?ds) 1)"
    by (simp add: unstale_def loadPhaseFromArray_def new_ds_def Dataset_def empty_values_def)
  have "adev_spec (ds_x ?ds) 1 = Num (sqrt 2)"
    by (simp add: loadPhaseFromArray_def adev_spec_def jsub_def
        upt_rec[of _ "numeral _"] upt_rec[of _ "Suc _"])
  then show ?thesis
    using u getAdev_formula[of 1 ?ds, OF _ u] by simp
qed

section \<open>The MIN_SAMPLES gate\<close>

lemma adev_val_zero: "adev_n xs m \<le> 3 \<Longrightarrow> adev_val xs m = Num 0"
  by (auto simp: adev_val_def adev_n_def MIN_SAMPLES_def split: prod.splits)

lemma oadev_val_zero: "oadev_n xs m \<le> 3 \<Longrightarrow> oadev_val xs m = Num 0"
  by (auto simp: oadev_val_def oadev_n_def MIN_SAMPLES_def split: prod.splits)

lemma mdev_val_zero: "mdev_n xs m \<le> 3 \<Longrightarrow> mdev_val xs m = Num 0"
  by (auto simp: mdev_val_def mdev_n_def MIN_SAMPLES_def split: prod.splits)

lemma hdev_val_zero: "hdev_n xs m \<le> 3 \<Longrightarrow> hdev_val xs m = Num 0"
  by (auto simp: hdev_val_def hdev_n_def MIN_SAMPLES_def split: prod.splits)

lemma ohdev_val_zero: "ohdev_n xs m \<le> 3 \<Longrightarrow> ohdev_val xs m = Num 0"
  by (auto simp: ohdev_val_def ohdev_n_def MIN_SAMPLES_def split: prod.splits)

lemma totdev_val_zero: "totdev_n xs m \<le> 3 \<Longrightarrow> totdev_val xs m = Num 0"
  by (auto simp: totdev_val_def totdev_n_def MIN_SAMPLES_def split: prod.splits)

lemma mtotdev_val_zero: "mtot_n xs m half \<le> 3 \<Longrightarrow> mtotdev_val xs m half = Num 0"
  by (auto simp: mtotdev_val_def mtot_n_def MIN_SAMPLES_def Let_def split: prod.splits)

lemma htotdev_val_zero: "mtot_n ys m half \<le> 3 \<Longrightarrow> htotdev_val ys m half = Num 0"
  by (auto simp: htotdev_val_def mtot_n_def MIN_SAMPLES_def Let_def split: prod.splits)

lemma getOadev_unstale:
  "unstale (oadev (ds_values ds)) (coerce marg) (oadev_val (ds_x ds) (coerce marg)) \<Longrightarrow>
   fst (getOadev ds marg) = oadev_val (ds_x ds) (coerce marg)"
  by (auto simp: getOadev_def unstale_def Let_def)

lemma getMdev_unstale:
  "unstale (mdev (ds_values ds)) (coerce marg) (mdev_val (ds_x ds) (coerce marg)) \<Longrightarrow>
   fst (getMdev ds marg) = mdev_val (ds_x ds) (coerce marg)"
  by (auto simp: getMdev_def unstale_def Let_def)

lemma getHdev_unstale:
  "unstale (hdev (ds_values ds)) (coerce marg) (hdev_val (ds_x ds) (coerce marg)) \<Longrightarrow>
   fst (getHdev ds marg) = hdev_val (ds_x ds) (coerce marg)"
  by (auto simp: getHdev_def unstale_def Let_def)

lemma getOhdev_unstale:
  "unstale (ohdev (ds_values ds)) (coerce marg) (ohdev_val (ds_x ds) (coerce marg)) \<Longrightarrow>
   fst (getOhdev ds marg) = ohdev_val (ds_x ds) (coerce marg)"
  by (auto simp: getOhdev_def unstale_def Let_def)

lemma getTotdev_unstale:
  "unstale (totdev (ds_values ds)) (coerce marg) (totdev_val (ds_x ds) (coerce marg)) \<Longrightarrow>
   fst (getTotdev ds marg) = totdev_val (ds_x ds) (coerce marg)"
  by (auto simp: getTotdev_def unstale_def Let_def)

lemma getMtotdev_unstale:
  "unstale (mtotdev (ds_values ds)) (coerce marg) (mtotdev_val (ds_x ds) (coerce marg) (half_of marg)) \<Longrightarrow>
   fst (getMtotdev ds marg) = mtotdev_val (ds_x ds) (coerce marg) (half_of marg)"
  by (auto simp: getMtotdev_def unstale_def Let_def)

lemma getHtotdev_unstale:
  "unstale (htotdev (ds_values ds)) (coerce marg) (htotdev_val (ds_y ds) (coerce marg) (half_of marg)) \<Longrightarrow>
   fst (getHtotdev ds marg) = htotdev_val (ds_y ds) (coerce marg) (half_of marg)"
  by (auto simp: getHtotdev_def unstale_def Let_def)

lemma mtot_loop_count:
  "fst (mtot_loop a m len half n d) =
     (if int n < int len - 3 * int m + 1 then nat (int len - 3 * int m + 1) else n)"
proof (induction "len + 1 - n" arbitrary: n d)
  case 0
  then show ?case by (subst mtot_loop.simps) simp
next
  case (Suc k)
  show ?case
  proof (cases "int n < int len - 3 * int m + 1")
    case True
    then have k: "k = len + 1 - (n + 1)" using Suc.hyps(2) by linarith
    show ?thesis
      using True Suc.hyps(1)[OF k]
      by (subst mtot_loop.simps) (auto simp: Let_def split: prod.splits)
  next
    case False
    then show ?thesis by (subst mtot_loop.simps) simp
  qed
qed

lemma mtot_n_eq: "mtot_n a m half = nat (int (length a) - 3 * int m + 1)"
  by (simp add: mtot_n_def mtot_loop_count)

text \<open>
  C2. For each of the eight estimators \<open>getAdev\<close>, \<open>getOadev\<close>, \<open>getMdev\<close>,
  \<open>getHdev\<close>, \<open>getOhdev\<close>, \<open>getTotdev\<close>, \<open>getMtotdev\<close> and \<open>getHtotdev\<close> and
  every \<open>m \<ge> 1\<close>: when the estimator's count \<open>n\<close> of accumulated terms is at most
  \<open>3\<close>, the estimator returns exactly \<open>0\<close> (a value, no error, no square root). The
  entries of the table for \<open>m\<close> are absent or were stored from the current arrays.
\<close>

theorem below_threshold_zero:
  assumes m: "1 \<le> m"
    and "unstale (adev (ds_values ds)) m (adev_val (ds_x ds) m)"
    and "unstale (oadev (ds_values ds)) m (oadev_val (ds_x ds) m)"
    and "unstale (mdev (ds_values ds)) m (mdev_val (ds_x ds) m)"
    and "unstale (hdev (ds_values ds)) m (hdev_val (ds_x ds) m)"
    and "unstale (ohdev (ds_values ds)) m (ohdev_val (ds_x ds) m)"
    and "unstale (totdev (ds_values ds)) m (totdev_val (ds_x ds) m)"
    and "unstale (mtotdev (ds_values ds)) m (mtotdev_val (ds_x ds) m (half_of (Some m)))"
    and "unstale (htotdev (ds_values ds)) m (htotdev_val (ds_y ds) m (half_of (Some m)))"
  shows "(adev_n (ds_x ds) m \<le> 3 \<longrightarrow> fst (getAdev ds (Some m)) = Num 0) \<and>
         (oadev_n (ds_x ds) m \<le> 3 \<longrightarrow> fst (getOadev ds (Some m)) = Num 0) \<and>
         (mdev_n (ds_x ds) m \<le> 3 \<longrightarrow> fst (getMdev ds (Some m)) = Num 0) \<and>
         (hdev_n (ds_x ds) m \<le> 3 \<longrightarrow> fst (getHdev ds (Some m)) = Num 0) \<and>
         (ohdev_n (ds_x ds) m \<le> 3 \<longrightarrow> fst (getOhdev ds (Some m)) = Num 0) \<and>
         (totdev_n (ds_x ds) m \<le> 3 \<longrightarrow> fst (getTotdev ds (Some m)) = Num 0) \<and>
         (mtot_n (ds_x ds) m (half_of (Some m)) \<le> 3 \<longrightarrow> fst (getMtotdev ds (Some m)) = Num 0) \<and>
         (mtot_n (ds_y ds) m (half_of (Some m)) \<le> 3 \<longrightarrow> fst (getHtotdev ds (Some m)) = Num 0)"
proof -
  have c: "coerce (Some m) = m" using m by (rule coerce_Some)
  have "adev_n (ds_x ds) m \<le> 3 \<longrightarrow> fst (getAdev ds (Some m)) = Num 0"
    using assms(2) getAdev_unstale[of ds "Some m"] by (simp add: c adev_val_zero)
  moreover have "oadev_n (ds_x ds) m \<le> 3 \<longrightarrow> fst (getOadev ds (Some m)) = Num 0"
    using assms(3) getOadev_unstale[of ds "Some m"] by (simp add: c oadev_val_zero)
  moreover have "mdev_n (ds_x ds) m \<le> 3 \<longrightarrow> fst (getMdev ds (Some m)) = Num 0"
    using assms(4) getMdev_unstale[of ds "Some m"] by (simp add: c mdev_val_zero)
  moreover have "hdev_n (ds_x ds) m \<le> 3 \<longrightarrow> fst (getHdev ds (Some m)) = Num 0"
    using assms(5) getHdev_unstale[of ds "Some m"] by (simp add: c hdev_val_zero)
  moreover have "ohdev_n (ds_x ds) m \<le> 3 \<longrightarrow> fst (getOhdev ds (Some m)) = Num 0"
    using assms(6) getOhdev_unstale[of ds "Some m"] by (simp add: c ohdev_val_zero)
  moreover have "totdev_n (ds_x ds) m \<le> 3 \<longrightarrow> fst (getTotdev ds (Some m)) = Num 0"
    using assms(7) getTotdev_unstale[of ds "Some m"] by (simp add: c totdev_val_zero)
  moreover have "mtot_n (ds_x ds) m (half_of (Some m)) \<le> 3 \<longrightarrow> fst (getMtotdev ds (Some m)) = Num 0"
    using assms(8) getMtotdev_unstale[of ds "Some m"] by (simp add: c mtotdev_val_zero)
  moreover have "mtot_n (ds_y ds) m (half_of (Some m)) \<le> 3 \<longrightarrow> fst (getHtotdev ds (Some m)) = Num 0"
    using assms(9) getHtotdev_unstale[of ds "Some m"] by (simp add: c htotdev_val_zero)
  ultimately show ?thesis by blast
qed

theorem below_threshold_zero_witness:
  "(1::nat) \<le> 1 \<and>
   adev_n (ds_x (loadPhaseFromArray new_ds (map Num [0, 1, 2, 3]))) 1 \<le> 3 \<and>
   fst (getAdev (loadPhaseFromArray new_ds (map Num [0, 1, 2, 3])) (Some 1)) = Num 0 \<and>
   oadev_n (ds_x (loadPhaseFromArray new_ds (map Num [0, 1, 2, 3]))) 1 \<le> 3 \<and>
   fst (getOadev (loadPhaseFromArray new_ds (map Num [0, 1, 2, 3])) (Some 1)) = Num 0 \<and>
   mdev_n (ds_x (loadPhaseFromArray new_ds (map Num [0, 1, 2, 3]))) 1 \<le> 3 \<and>
   fst (getMdev (loadPhaseFromArray new_ds (map Num [0, 1, 2, 3])) (Some 1)) = Num 0 \<and>
   hdev_n (ds_x (loadPhaseFromArray new_ds (map Num [0, 1, 2, 3]))) 1 \<le> 3 \<and>
   fst (getHdev (loadPhaseFromArray new_ds (map Num [0, 1, 2, 3])) (Some 1)) = Num 0 \<and>
   ohdev_n (ds_x (loadPhaseFromArray new_ds (map Num [0, 1, 2, 3]))) 1 \<le> 3 \<and>
   fst (getOhdev (loadPhaseFromArray new_ds (map Num [0, 1, 2, 3])) (Some 1)) = Num 0 \<and>
   totdev_n (ds_x (loadPhaseFromArray new_ds (map Num [0, 1, 2, 3]))) 1 \<le> 3 \<and>
   fst (getTotdev (loadPhaseFromArray new_ds (map Num [0, 1, 2, 3])) (Some 1)) = Num 0 \<and>
   mtot_n (ds_x (loadPhaseFromArray new_ds (map Num [0, 1, 2, 3]))) 1 (half_of (Some 1)) \<le> 3 \<and>
   fst (getMtotdev (loadPhaseFromArray new_ds (map Num [0, 1, 2, 3])) (Some 1)) = Num 0 \<and>
   mtot_n (ds_y (loadPhaseFromArray new_ds (map Num [0, 1, 2, 3]))) 1 (half_of (Some 1)) \<le> 3 \<and>
   fst (getHtotdev (loadPhaseFromArray new_ds (map Num [0, 1, 2, 3])) (Some 1)) = Num 0"
proof -
  let ?ds = "loadPhaseFromArray new_ds (map Num [0, 1, 2, 3])"
  have x: "ds_x ?ds = map Num [0, 1, 2, 3]"
    by (simp add: loadPhaseFromArray_def)
  have y: "length (ds_y ?ds) = 3"
    using phaseToFreq_reals[of "[0, 1, 2, 3]" None]
    by (simp add: loadPhaseFromArray_def length_diffs del: diffs.simps)
  have v: "ds_values ?ds = empty_values"
    by (simp add: loadPhaseFromArray_def new_ds_def Dataset_def)
  have n1: "adev_n (ds_x ?ds) 1 \<le> 3"
    unfolding x by (simp add: adev_n_def adev_loop.simps diff2_def rd_def jsub_def)
  have n2: "oadev_n (ds_x ?ds) 1 \<le> 3"
    unfolding x by (simp add: oadev_n_def oadev_loop.simps diff2_def rd_def jsub_def)
  have n3: "mdev_n (ds_x ?ds) 1 \<le> 3"
    unfolding x
    by (simp add: mdev_n_def mdev_acc_def mdev_loop1.simps mdev_loop2.simps diff2_def
        diff3_def rd_def jsub_def)
  have n4: "hdev_n (ds_x ?ds) 1 \<le> 3"
    unfolding x by (simp add: hdev_n_def hdev_loop.simps diff3_def rd_def jsub_def)
  have n5: "ohdev_n (ds_x ?ds) 1 \<le> 3"
    unfolding x by (simp add: ohdev_n_def ohdev_loop.simps diff3_def rd_def jsub_def)
  have n6: "totdev_n (ds_x ?ds) 1 \<le> 3"
    unfolding x
    by (simp add: totdev_n_def totdev_acc_def totdev_ext_loop.simps totdev_sum_loop.simps
        rd_int_def rd_def jsub_def)
  have n7: "mtot_n (ds_x ?ds) 1 (half_of (Some 1)) \<le> 3"
    unfolding x by (simp add: mtot_n_eq)
  have n8: "mtot_n (ds_y ?ds) 1 (half_of (Some 1)) \<le> 3"
    using y by (simp add: mtot_n_eq)
  have u: "unstale (adev (ds_values ?ds)) 1 (adev_val (ds_x ?ds) 1)"
    "unstale (oadev (ds_values ?ds)) 1 (oadev_val (ds_x ?ds) 1)"
    "unstale (mdev (ds_values ?ds)) 1 (mdev_val (ds_x ?ds) 1)"
    "unstale (hdev (ds_values ?ds)) 1 (hdev_val (ds_x ?ds) 1)"
    "unstale (ohdev (ds_values ?ds)) 1 (ohdev_val (ds_x ?ds) 1)"
    "unstale (totdev (ds_values ?ds)) 1 (totdev_val (ds_x ?ds) 1)"
    "unstale (mtotdev (ds_values ?ds)) 1 (mtotdev_val (ds_x ?ds) 1 (half_of (Some 1)))"
    "unstale (htotdev (ds_values ?ds)) 1 (htotdev_val (ds_y ?ds) 1 (half_of (Some 1)))"
    unfolding v by (simp_all add: empty_values_def unstale_def)
  have one: "(1::nat) \<le> 1" by simp
  show ?thesis
    using below_threshold_zero[OF one u] n1 n2 n3 n4 n5 n6 n7 n8 by simp
qed

section \<open>TDEV and MDEV\<close>

lemma tdev_link_getMdev: "tdev_link (ds_values ds) \<Longrightarrow> tdev_link (ds_values (snd (getMdev ds marg)))"
  by (fastforce simp: getMdev_def tdev_link_def Let_def split: option.splits)

lemma tdev_link_getTdev: "tdev_link (ds_values ds) \<Longrightarrow> tdev_link (ds_values (snd (getTdev ds marg)))"
  by (auto simp: getTdev_def getMdev_def tdev_link_def tdev_of_def Let_def coerce_Some coerce_pos Suc_leI
      split: option.splits prod.splits)

lemma tdev_link_others:
  "tdev_link (ds_values ds) \<Longrightarrow> tdev_link (ds_values (snd (getPhaseAvg ds marg)))"
  "tdev_link (ds_values ds) \<Longrightarrow> tdev_link (ds_values (snd (getFreqAvg ds marg)))"
  "tdev_link (ds_values ds) \<Longrightarrow> tdev_link (ds_values (snd (getPhaseMax ds marg)))"
  "tdev_link (ds_values ds) \<Longrightarrow> tdev_link (ds_values (snd (getFreqMax ds marg)))"
  "tdev_link (ds_values ds) \<Longrightarrow> tdev_link (ds_values (snd (getPhaseMin ds marg)))"
  "tdev_link (ds_values ds) \<Longrightarrow> tdev_link (ds_values (snd (getFreqMin ds marg)))"
  "tdev_link (ds_values ds) \<Longrightarrow> tdev_link (ds_values (snd (getAdev ds marg)))"
  "tdev_link (ds_values ds) \<Longrightarrow> tdev_link (ds_values (snd (getOadev ds marg)))"
  "tdev_link (ds_values ds) \<Longrightarrow> tdev_link (ds_values (snd (getHdev ds marg)))"
  "tdev_link (ds_values ds) \<Longrightarrow> tdev_link (ds_values (snd (getOhdev ds marg)))"
  "tdev_link (ds_values ds) \<Longrightarrow> tdev_link (ds_values (snd (getTotdev ds marg)))"
  "tdev_link (ds_values ds) \<Longrightarrow> tdev_link (ds_values (snd (getMtotdev ds marg)))"
  "tdev_link (ds_values ds) \<Longrightarrow> tdev_link (ds_values (snd (getHtotdev ds marg)))"
  by (simp_all add: getPhaseAvg_def getFreqAvg_def getPhaseMax_def getFreqMax_def getPhaseMin_def
      getFreqMin_def getAdev_def getOadev_def getHdev_def getOhdev_def getTotdev_def getMtotdev_def
      getHtotdev_def tdev_link_def Let_def split: option.splits)

lemma tdev_link_getStdev: "tdev_link (ds_values ds) \<Longrightarrow> tdev_link (ds_values (snd (getStdev ds marg)))"
  by (simp add: getStdev_def getFreqAvg_def tdev_link_def Let_def split: option.splits prod.splits)

lemma tdev_link_getTtotdev: "tdev_link (ds_values ds) \<Longrightarrow> tdev_link (ds_values (snd (getTtotdev ds marg)))"
  by (simp add: getTtotdev_def getMtotdev_def tdev_link_def Let_def split: option.splits prod.splits)

lemma reachable_tdev_link: "reachable ds \<Longrightarrow> tdev_link (ds_values ds)"
proof (induction rule: reachable.induct)
  case (r_new c nm now)
  show ?case by (simp add: Dataset_def empty_values_def tdev_link_def)
next
  case (r_loadPhase ds a)
  then show ?case by (simp add: loadPhaseFromArray_def)
next
  case (r_loadFreq ds a)
  then show ?case by (simp add: loadFreqFromArray_def)
qed (simp_all add: tdev_link_others tdev_link_getMdev tdev_link_getTdev tdev_link_getStdev tdev_link_getTtotdev)

text \<open>
  C5. For every dataset a caller can obtain and every \<open>m \<ge> 1\<close>, \<open>getTdev(m)\<close> is
  exactly \<open>getMdev(m) * m / sqrt(3)\<close>; the two calls can be made in either order,
  each returns what it returns on its own.
\<close>

theorem tdev_from_mdev:
  assumes "reachable ds" and "1 \<le> m"
  shows "fst (getTdev ds (Some m)) = jdiv (jmul (fst (getMdev ds (Some m))) (num m)) (jsqrt (Num 3)) \<and>
         fst (getMdev (snd (getTdev ds (Some m))) (Some m)) = fst (getMdev ds (Some m)) \<and>
         fst (getTdev (snd (getMdev ds (Some m))) (Some m)) = fst (getTdev ds (Some m))"
proof -
  have l: "tdev_link (ds_values ds)" using assms(1) by (rule reachable_tdev_link)
  have c: "coerce (Some m) = m" using assms(2) by (rule coerce_Some)
  show ?thesis
  proof (cases "tdev (ds_values ds) m")
    case None
    then show ?thesis
      by (auto simp: getTdev_def getMdev_def Let_def c split: option.splits prod.splits)
  next
    case (Some t)
    then obtain d where d: "mdev (ds_values ds) m = Some d" "t = tdev_of d m"
      using l by (auto simp: tdev_link_def)
    with Some show ?thesis
      by (simp add: getTdev_def getMdev_def Let_def c tdev_of_def)
  qed
qed

theorem tdev_from_mdev_witness:
  "reachable (snd (getMdev (loadFreqFromArray new_ds (map Num [1, 2, 4, 8, 16])) (Some 1))) \<and> (1::nat) \<le> 1 \<and>
   fst (getTdev (snd (getMdev (loadFreqFromArray new_ds (map Num [1, 2, 4, 8, 16])) (Some 1))) (Some 1)) =
     jdiv (jmul (fst (getMdev (snd (getMdev (loadFreqFromArray new_ds (map Num [1, 2, 4, 8, 16])) (Some 1))) (Some 1))) (num 1)) (jsqrt (Num 3))"
proof -
  have r: "reachable (snd (getMdev (loadFreqFromArray new_ds (map Num [1, 2, 4, 8, 16])) (Some 1)))"
    unfolding new_ds_def by (intro r_getMdev r_loadFreq r_new)
  have one: "(1::nat) \<le> 1" by simp
  show ?thesis using tdev_from_mdev[OF r one] r by simp
qed

section \<open>Falsy averaging factors\<close>

lemmas mtot_simps = mtot_loop.simps mtot_f_loop.simps mtot_zx_loop.simps mtot_nx_loop.simps
  mtot_sum_loop.simps mtot_av_loop.simps

lemma replicate_num: "replicate (numeral k) x = x # replicate (pred_numeral k) x"
  by (simp add: numeral_eq_Suc)

lemma upd_num: "(x # xs)[numeral k := y] = x # xs[pred_numeral k := y]"
  by (simp add: numeral_eq_Suc)

lemmas eval_simps = MIN_SAMPLES_def rd_def rd_num_def rd_int_def arr_set_def jsub_def Let_def
  replicate_num upd_num

lemma half_of_values: "half_of (Some 0) = Num 0" "half_of None = NaN" "half_of (Some 1) = Num 2"
  by (simp_all add: half_of_def arg_num_def)

lemma coerce_falsy: "coerce (Some 0) = 1" "coerce None = 1" "coerce (Some 1) = 1"
  by (simp_all add: coerce_def)

lemma mtotdev_ramp_2: "mtotdev_val (map Num [0, 1, 2, 3, 4, 5]) 1 (Num 2) = Num 0"
  by (simp add: mtotdev_val_def bias_def mtot_simps eval_simps)

lemma mtotdev_ramp_0: "mtotdev_val (map Num [0, 1, 2, 3, 4, 5]) 1 (Num 0) = NaN"
  by (simp add: mtotdev_val_def bias_def mtot_simps eval_simps)

lemma mtotdev_ramp_NaN: "mtotdev_val (map Num [0, 1, 2, 3, 4, 5]) 1 NaN = NaN"
  by (simp add: mtotdev_val_def bias_def mtot_simps eval_simps)

lemma htotdev_const_2: "htotdev_val (map Num [1, 1, 1, 1, 1, 1]) 1 (Num 2) = Num 0"
  by (simp add: htotdev_val_def mtot_simps eval_simps)

lemma htotdev_const_0: "htotdev_val (map Num [1, 1, 1, 1, 1, 1]) 1 (Num 0) = NaN"
  by (simp add: htotdev_val_def mtot_simps eval_simps)

lemma htotdev_const_NaN: "htotdev_val (map Num [1, 1, 1, 1, 1, 1]) 1 NaN = NaN"
  by (simp add: htotdev_val_def mtot_simps eval_simps)

text \<open>
  C10. A falsy \<open>m\<close> (\<open>0\<close>, or omitted) should give what \<open>m = 1\<close> gives. In
  \<open>getMtotdev\<close> and \<open>getHtotdev\<close> it does not: \<open>half\<close> is computed before
  \<open>m = m || 1\<close>, so it is \<open>0\<close> or \<open>NaN\<close> where \<open>m = 1\<close> has \<open>2\<close>, and the
  drift estimate divides by it. On the phase ramp \<open>0, 1, 2, 3, 4, 5\<close> and on the
  constant frequency sequence \<open>1, 1, 1, 1, 1, 1\<close> the result for \<open>m = 1\<close> is \<open>0\<close>
  and the result for a falsy \<open>m\<close> is \<open>NaN\<close>.
\<close>

theorem half_before_coercion:
  "fst (getMtotdev (loadPhaseFromArray new_ds (map Num [0, 1, 2, 3, 4, 5])) (Some 1)) = Num 0 \<and>
   fst (getMtotdev (loadPhaseFromArray new_ds (map Num [0, 1, 2, 3, 4, 5])) (Some 0)) = NaN \<and>
   fst (getMtotdev (loadPhaseFromArray new_ds (map Num [0, 1, 2, 3, 4, 5])) None) = NaN \<and>
   fst (getHtotdev (loadFreqFromArray new_ds (map Num [1, 1, 1, 1, 1, 1])) (Some 1)) = Num 0 \<and>
   fst (getHtotdev (loadFreqFromArray new_ds (map Num [1, 1, 1, 1, 1, 1])) (Some 0)) = NaN \<and>
   fst (getHtotdev (loadFreqFromArray new_ds (map Num [1, 1, 1, 1, 1, 1])) None) = NaN"
proof -
  let ?p = "loadPhaseFromArray new_ds (map Num [0, 1, 2, 3, 4, 5])"
  let ?f = "loadFreqFromArray new_ds (map Num [1, 1, 1, 1, 1, 1])"
  have p: "ds_x ?p = map Num [0, 1, 2, 3, 4, 5]" "mtotdev (ds_values ?p) 1 = None"
    by (simp_all add: loadPhaseFromArray_def new_ds_values empty_values_def)
  have f: "ds_y ?f = map Num [1, 1, 1, 1, 1, 1]" "htotdev (ds_values ?f) 1 = None"
    by (simp_all add: loadFreqFromArray_def new_ds_values empty_values_def)
  have "fst (getMtotdev ?p (Some 1)) = Num 0"
    unfolding getMtotdev_def coerce_falsy half_of_values Let_def p
    using mtotdev_ramp_2 by simp
  moreover have "fst (getMtotdev ?p (Some 0)) = NaN"
    unfolding getMtotdev_def coerce_falsy half_of_values Let_def p
    using mtotdev_ramp_0 by simp
  moreover have "fst (getMtotdev ?p None) = NaN"
    unfolding getMtotdev_def coerce_falsy half_of_values Let_def p
    using mtotdev_ramp_NaN by simp
  moreover have "fst (getHtotdev ?f (Some 1)) = Num 0"
    unfolding getHtotdev_def coerce_falsy half_of_values Let_def f
    using htotdev_const_2 by simp
  moreover have "fst (getHtotdev ?f (Some 0)) = NaN"
    unfolding getHtotdev_def coerce_falsy half_of_values Let_def f
    using htotdev_const_0 by simp
  moreover have "fst (getHtotdev ?f None) = NaN"
    unfolding getHtotdev_def coerce_falsy half_of_values Let_def f
    using htotdev_const_NaN by simp
  ultimately show ?thesis by blast
qed

text \<open>Every other operation that takes \<open>m\<close> uses it only after the coercion.\<close>

lemma falsy_m_elsewhere:
  "phaseToFreq xs (Some 0) = phaseToFreq xs (Some 1) \<and> phaseToFreq xs None = phaseToFreq xs (Some 1)"
  "freqToPhase ys (Some 0) = freqToPhase ys (Some 1) \<and> freqToPhase ys None = freqToPhase ys (Some 1)"
  "getPhaseAvg ds (Some 0) = getPhaseAvg ds (Some 1) \<and> getPhaseAvg ds None = getPhaseAvg ds (Some 1)"
  "getPhaseMax ds (Some 0) = getPhaseMax ds (Some 1) \<and> getPhaseMax ds None = getPhaseMax ds (Some 1)"
  "getPhaseMin ds (Some 0) = getPhaseMin ds (Some 1) \<and> getPhaseMin ds None = getPhaseMin ds (Some 1)"
  "getFreqAvg ds (Some 0) = getFreqAvg ds (Some 1) \<and> getFreqAvg ds None = getFreqAvg ds (Some 1)"
  "getFreqMax ds (Some 0) = getFreqMax ds (Some 1) \<and> getFreqMax ds None = getFreqMax ds (Some 1)"
  "getFreqMin ds (Some 0) = getFreqMin ds (Some 1) \<and> getFreqMin ds None = getFreqMin ds (Some 1)"
  "getStdev ds (Some 0) = getStdev ds (Some 1) \<and> getStdev ds None = getStdev ds (Some 1)"
  "getAdev ds (Some 0) = getAdev ds (Some 1) \<and> getAdev ds None = getAdev ds (Some 1)"
  "getOadev ds (Some 0) = getOadev ds (Some 1) \<and> getOadev ds None = getOadev ds (Some 1)"
  "getMdev ds (Some 0) = getMdev ds (Some 1) \<and> getMdev ds None = getMdev ds (Some 1)"
  "getTdev ds (Some 0) = getTdev ds (Some 1) \<and> getTdev ds None = getTdev ds (Some 1)"
  "getHdev ds (Some 0) = getHdev ds (Some 1) \<and> getHdev ds None = getHdev ds (Some 1)"
  "getOhdev ds (Some 0) = getOhdev ds (Some 1) \<and> getOhdev ds None = getOhdev ds (Some 1)"
  "getTotdev ds (Some 0) = getTotdev ds (Some 1) \<and> getTotdev ds None = getTotdev ds (Some 1)"
  "getTtotdev ds (Some 0) = getTtotdev ds (Some 1) \<and> getTtotdev ds None = getTtotdev ds (Some 1)"
  unfolding phaseToFreq_def freqToPhase_def getPhaseAvg_def getPhaseMax_def getPhaseMin_def
    getFreqAvg_def getFreqMax_def getFreqMin_def getStdev_def getAdev_def getOadev_def
    getMdev_def getTdev_def getHdev_def getOhdev_def getTotdev_def getTtotdev_def coerce_falsy
  by simp_all

section \<open>What a getter returns and what it stores\<close>

lemma getPhaseAvg_fst:
  "fst (getPhaseAvg ds marg) =
     (case xavg (ds_values ds) (coerce marg) of Some v \<Rightarrow> v | None \<Rightarrow> avg_val (ds_x ds) (coerce marg))"
  by (simp add: getPhaseAvg_def Let_def split: option.splits)

lemma getFreqAvg_fst:
  "fst (getFreqAvg ds marg) =
     (case yavg (ds_values ds) (coerce marg) of Some v \<Rightarrow> v | None \<Rightarrow> avg_val (ds_y ds) (coerce marg))"
  by (simp add: getFreqAvg_def Let_def split: option.splits)

lemma getPhaseMax_fst:
  "fst (getPhaseMax ds marg) =
     (case xmax (ds_values ds) (coerce marg) of Some v \<Rightarrow> v | None \<Rightarrow> max_val (ds_x ds) (coerce marg))"
  by (simp add: getPhaseMax_def Let_def split: option.splits)

lemma getFreqMax_fst:
  "fst (getFreqMax ds marg) =
     (case ymax (ds_values ds) (coerce marg) of Some v \<Rightarrow> v | None \<Rightarrow> max_val (ds_y ds) (coerce marg))"
  by (simp add: getFreqMax_def Let_def split: option.splits)

lemma getPhaseMin_fst:
  "fst (getPhaseMin ds marg) =
     (case xmin (ds_values ds) (coerce marg) of Some v \<Rightarrow> v | None \<Rightarrow> min_val (ds_x ds) (coerce marg))"
  by (simp add: getPhaseMin_def Let_def split: option.splits)

lemma getFreqMin_fst:
  "fst (getFreqMin ds marg) =
     (case ymin (ds_values ds) (coerce marg) of Some v \<Rightarrow> v | None \<Rightarrow> min_val (ds_y ds) (coerce marg))"
  by (simp add: getFreqMin_def Let_def split: option.splits)

lemma getStdev_fst:
  "fst (getStdev ds marg) =
     (case stdev (ds_values ds) (coerce marg) of Some v \<Rightarrow> v
      | None \<Rightarrow> stdev_val (ds_y ds) (coerce marg)
          (case yavg (ds_values ds) (coerce marg) of Some a \<Rightarrow> a
           | None \<Rightarrow> avg_val (ds_y ds) (coerce marg)))"
  using coerce_pos[of marg]
  by (simp add: getStdev_def getFreqAvg_def Let_def coerce_Some split: option.splits prod.splits)

lemma getAdev_fst:
  "fst (getAdev ds marg) =
     (case adev (ds_values ds) (coerce marg) of Some v \<Rightarrow> v | None \<Rightarrow> adev_val (ds_x ds) (coerce marg))"
  by (simp add: getAdev_def Let_def split: option.splits)

lemma getOadev_fst:
  "fst (getOadev ds marg) =
     (case oadev (ds_values ds) (coerce marg) of Some v \<Rightarrow> v | None \<Rightarrow> oadev_val (ds_x ds) (coerce marg))"
  by (simp add: getOadev_def Let_def split: option.splits)

lemma getMdev_fst:
  "fst (getMdev ds marg) =
     (case mdev (ds_values ds) (coerce marg) of Some v \<Rightarrow> v | None \<Rightarrow> mdev_val (ds_x ds) (coerce marg))"
  by (simp add: getMdev_def Let_def split: option.splits)

lemma getTdev_fst:
  "fst (getTdev ds marg) =
     (case tdev (ds_values ds) (coerce marg) of Some v \<Rightarrow> v
      | None \<Rightarrow> tdev_of
          (case mdev (ds_values ds) (coerce marg) of Some d \<Rightarrow> d
           | None \<Rightarrow> mdev_val (ds_x ds) (coerce marg)) (coerce marg))"
  using coerce_pos[of marg]
  by (simp add: getTdev_def getMdev_def tdev_of_def Let_def coerce_Some split: option.splits prod.splits)

lemma getHdev_fst:
  "fst (getHdev ds marg) =
     (case hdev (ds_values ds) (coerce marg) of Some v \<Rightarrow> v | None \<Rightarrow> hdev_val (ds_x ds) (coerce marg))"
  by (simp add: getHdev_def Let_def split: option.splits)

lemma getOhdev_fst:
  "fst (getOhdev ds marg) =
     (case ohdev (ds_values ds) (coerce marg) of Some v \<Rightarrow> v | None \<Rightarrow> ohdev_val (ds_x ds) (coerce marg))"
  by (simp add: getOhdev_def Let_def split: option.splits)

lemma getTotdev_fst:
  "fst (getTotdev ds marg) =
     (case totdev (ds_values ds) (coerce marg) of Some v \<Rightarrow> v | None \<Rightarrow> totdev_val (ds_x ds) (coerce marg))"
  by (simp add: getTotdev_def Let_def split: option.splits)

lemma getMtotdev_fst:
  "fst (getMtotdev ds marg) =
     (case mtotdev (ds_values ds) (coerce marg) of Some v \<Rightarrow> v
      | None \<Rightarrow> mtotdev_val (ds_x ds) (coerce marg) (half_of marg))"
  by (simp add: getMtotdev_def Let_def split: option.splits)

lemma getTtotdev_fst:
  "fst (getTtotdev ds marg) =
     (case ttotdev (ds_values ds) (coerce marg) of Some v \<Rightarrow> v
      | None \<Rightarrow> tdev_of
          (case mtotdev (ds_values ds) (coerce marg) of Some d \<Rightarrow> d
           | None \<Rightarrow> mtotdev_val (ds_x ds) (coerce marg) (half_of (Some (coerce marg)))) (coerce marg))"
  using coerce_pos[of marg]
  by (simp add: getTtotdev_def getMtotdev_def tdev_of_def Let_def coerce_Some split: option.splits prod.splits)

lemma getHtotdev_fst:
  "fst (getHtotdev ds marg) =
     (case htotdev (ds_values ds) (coerce marg) of Some v \<Rightarrow> v
      | None \<Rightarrow> htotdev_val (ds_y ds) (coerce marg) (half_of marg))"
  by (simp add: getHtotdev_def Let_def split: option.splits)

lemmas getter_fst = getPhaseAvg_fst getFreqAvg_fst getPhaseMax_fst getFreqMax_fst getPhaseMin_fst
  getFreqMin_fst getStdev_fst getAdev_fst getOadev_fst getMdev_fst getTdev_fst getHdev_fst
  getOhdev_fst getTotdev_fst getMtotdev_fst getTtotdev_fst getHtotdev_fst

section \<open>Reloading\<close>

text \<open>
  C3 (as amended). A load operation replaces the sample arrays and leaves the table
  \<open>values\<close> as it is: nothing clears it. After a reload every getter still returns
  the entry stored for \<open>m\<close> before the reload, when there is one, and computes from the
  new arrays only when there is none (\<open>getStdev\<close>, \<open>getTdev\<close> and \<open>getTtotdev\<close>
  then take the entry of the getter they call the same way).
\<close>

theorem reload_keeps_table:
  assumes "ds' = loadPhaseFromArray ds a \<or> ds' = loadFreqFromArray ds a"
  shows "ds_values ds' = ds_values ds \<and>
    fst (getPhaseAvg ds' marg) =
      (case xavg (ds_values ds) (coerce marg) of Some v \<Rightarrow> v | None \<Rightarrow> avg_val (ds_x ds') (coerce marg)) \<and>
    fst (getFreqAvg ds' marg) =
      (case yavg (ds_values ds) (coerce marg) of Some v \<Rightarrow> v | None \<Rightarrow> avg_val (ds_y ds') (coerce marg)) \<and>
    fst (getPhaseMax ds' marg) =
      (case xmax (ds_values ds) (coerce marg) of Some v \<Rightarrow> v | None \<Rightarrow> max_val (ds_x ds') (coerce marg)) \<and>
    fst (getFreqMax ds' marg) =
      (case ymax (ds_values ds) (coerce marg) of Some v \<Rightarrow> v | None \<Rightarrow> max_val (ds_y ds') (coerce marg)) \<and>
    fst (getPhaseMin ds' marg) =
      (case xmin (ds_values ds) (coerce marg) of Some v \<Rightarrow> v | None \<Rightarrow> min_val (ds_x ds') (coerce marg)) \<and>
    fst (getFreqMin ds' marg) =
      (case ymin (ds_values ds) (coerce marg) of Some v \<Rightarrow> v | None \<Rightarrow> min_val (ds_y ds') (coerce marg)) \<and>
    fst (getStdev ds' marg) =
      (case stdev (ds_values ds) (coerce marg) of Some v \<Rightarrow> v
       | None \<Rightarrow> stdev_val (ds_y ds') (coerce marg)
           (case yavg (ds_values ds) (coerce marg) of Some a \<Rightarrow> a
            | None \<Rightarrow> avg_val (ds_y ds') (coerce marg))) \<and>
    fst (getAdev ds' marg) =
      (case adev (ds_values ds) (coerce marg) of Some v \<Rightarrow> v | None \<Rightarrow> adev_val (ds_x ds') (coerce marg)) \<and>
    fst (getOadev ds' marg) =
      (case oadev (ds_values ds) (coerce marg) of Some v \<Rightarrow> v | None \<Rightarrow> oadev_val (ds_x ds') (coerce marg)) \<and>
    fst (getMdev ds' marg) =
      (case mdev (ds_values ds) (coerce marg) of Some v \<Rightarrow> v | None \<Rightarrow> mdev_val (ds_x ds') (coerce marg)) \<and>
    fst (getTdev ds' marg) =
      (case tdev (ds_values ds) (coerce marg) of Some v \<Rightarrow> v
       | None \<Rightarrow> tdev_of
           (case mdev (ds_values ds) (coerce marg) of Some d \<Rightarrow> d
            | None \<Rightarrow> mdev_val (ds_x ds') (coerce marg)) (coerce marg)) \<and>
    fst (getHdev ds' marg) =
      (case hdev (ds_values ds) (coerce marg) of Some v \<Rightarrow> v | None \<Rightarrow> hdev_val (ds_x ds') (coerce marg)) \<and>
    fst (getOhdev ds' marg) =
      (case ohdev (ds_values ds) (coerce marg) of Some v \<Rightarrow> v | None \<Rightarrow> ohdev_val (ds_x ds') (coerce marg)) \<and>
    fst (getTotdev ds' marg) =
      (case totdev (ds_values ds) (coerce marg) of Some v \<Rightarrow> v | None \<Rightarrow> totdev_val (ds_x ds') (coerce marg)) \<and>
    fst (getMtotdev ds' marg) =
      (case mtotdev (ds_values ds) (coerce marg) of Some v \<Rightarrow> v
       | None \<Rightarrow> mtotdev_val (ds_x ds') (coerce marg) (half_of marg)) \<and>
    fst (getTtotdev ds' marg) =
      (case ttotdev (ds_values ds) (coerce marg) of Some v \<Rightarrow> v
       | None \<Rightarrow> tdev_of
           (case mtotdev (ds_values ds) (coerce marg) of Some d \<Rightarrow> d
            | None \<Rightarrow> mtotdev_val (ds_x ds') (coerce marg) (half_of (Some (coerce marg)))) (coerce marg)) \<and>
    fst (getHtotdev ds' marg) =
      (case htotdev (ds_values ds) (coerce marg) of Some v \<Rightarrow> v
       | None \<Rightarrow> htotdev_val (ds_y ds') (coerce marg) (half_of marg))"
proof -
  have v: "ds_values ds' = ds_values ds"
    using assms by (auto simp: loadPhaseFromArray_def loadFreqFromArray_def)
  show ?thesis
    unfolding getter_fst v by simp
qed

lemma max_val_single: "max_val [Num r] (Suc 0) = Num r"
  by (simp add: max_val_def max_loop.simps arrayAvg_def arrayAvg_loop.simps rd_def Let_def)

theorem reload_keeps_table_witness:
  "(loadPhaseFromArray (snd (getPhaseMax (loadPhaseFromArray new_ds [Num 5]) (Some 1))) [Num 7] =
      loadPhaseFromArray (snd (getPhaseMax (loadPhaseFromArray new_ds [Num 5]) (Some 1))) [Num 7] \<or>
    loadPhaseFromArray (snd (getPhaseMax (loadPhaseFromArray new_ds [Num 5]) (Some 1))) [Num 7] =
      loadFreqFromArray (snd (getPhaseMax (loadPhaseFromArray new_ds [Num 5]) (Some 1))) [Num 7]) \<and>
   fst (getPhaseMax
         (loadPhaseFromArray (snd (getPhaseMax (loadPhaseFromArray new_ds [Num 5]) (Some 1))) [Num 7])
         (Some 1)) = Num 5"
proof -
  let ?ds = "snd (getPhaseMax (loadPhaseFromArray new_ds [Num 5]) (Some 1))"
  let ?ds' = "loadPhaseFromArray ?ds [Num 7]"
  have d: "?ds' = loadPhaseFromArray ?ds [Num 7] \<or> ?ds' = loadFreqFromArray ?ds [Num 7]"
    by simp
  have s: "xmax (ds_values ?ds) (coerce (Some 1)) = Some (Num 5)"
    by (simp add: getPhaseMax_def loadPhaseFromArray_def new_ds_values empty_values_def
        coerce_def max_val_single Let_def)
  show ?thesis
    using reload_keeps_table[OF d, of "Some 1"] s by simp
qed

text \<open>C3 as stated fails: after \<open>loadPhaseFromArray([5])\<close>, \<open>getPhaseMax(1)\<close> and
  \<open>loadPhaseFromArray([7])\<close> the table still holds \<open>xmax[1] = 5\<close>, and
  \<open>getPhaseMax(1)\<close> returns \<open>5\<close>, not the \<open>7\<close> of the newly loaded array.\<close>

theorem reload_keeps_table_counterexample:
  "xmax (ds_values
      (loadPhaseFromArray (snd (getPhaseMax (loadPhaseFromArray new_ds [Num 5]) (Some 1))) [Num 7])) 1
     = Some (Num 5) \<and>
   ds_x (loadPhaseFromArray (snd (getPhaseMax (loadPhaseFromArray new_ds [Num 5]) (Some 1))) [Num 7])
     = [Num 7] \<and>
   max_val [Num 7] 1 = Num 7 \<and>
   fst (getPhaseMax
         (loadPhaseFromArray (snd (getPhaseMax (loadPhaseFromArray new_ds [Num 5]) (Some 1))) [Num 7])
         (Some 1)) = Num 5"
  by (simp add: getPhaseMax_def loadPhaseFromArray_def new_ds_values empty_values_def
      coerce_def max_val_single Let_def)

section \<open>m beyond the end of the array\<close>

lemma jadd_NaN_right: "jadd v NaN = NaN"
  by (cases v) simp_all

lemma arrayAvg_loop_NaN: "arrayAvg_loop a i m j NaN = NaN"
  by (induction a i m j NaN rule: arrayAvg_loop.induct)
     (subst arrayAvg_loop.simps, simp)

lemma arrayAvg_loop_past_end:
  "j \<le> k \<Longrightarrow> k < m \<Longrightarrow> length a \<le> i + k \<Longrightarrow> arrayAvg_loop a i m j avg = NaN"
proof (induction a i m j avg rule: arrayAvg_loop.induct)
  case (1 a i m j avg)
  have jm: "j < m" using "1.prems" by simp
  show ?case
  proof (cases "j = k")
    case True
    then have "rd a (i + j) = NaN" using "1.prems" by (simp add: rd_def)
    then show ?thesis
      using jm by (subst arrayAvg_loop.simps) (simp add: jadd_NaN_right arrayAvg_loop_NaN)
  next
    case False
    then have "j + 1 \<le> k" using "1.prems" by simp
    then have "arrayAvg_loop a i m (j + 1) (jadd avg (rd a (i + j))) = NaN"
      using "1.IH"[OF jm] "1.prems" by simp
    then show ?thesis
      using jm by (subst arrayAvg_loop.simps) simp
  qed
qed

lemma arrayAvg_past_end: "length a < m \<Longrightarrow> arrayAvg 0 m a = NaN"
  using arrayAvg_loop_past_end[of 0 "length a" m a 0 "Num 0"]
  by (simp add: arrayAvg_def)

lemma avg_loop_once:
  "a \<noteq> [] \<Longrightarrow> length a < m \<Longrightarrow> avg_loop a m (length a) 0 (Num 0) [] = (NaN, [0])"
  by (subst avg_loop.simps, subst avg_loop.simps) (simp add: arrayAvg_past_end)

lemma max_loop_once:
  "a \<noteq> [] \<Longrightarrow> length a < m \<Longrightarrow> max_loop a m (length a) 0 NInf [] = (NInf, [0])"
  by (subst max_loop.simps, subst max_loop.simps) (simp add: arrayAvg_past_end)

lemma min_loop_once:
  "a \<noteq> [] \<Longrightarrow> length a < m \<Longrightarrow> min_loop a m (length a) 0 PInf [] = (PInf, [0])"
  by (subst min_loop.simps, subst min_loop.simps) (simp add: arrayAvg_past_end jlt_def)

lemma vals_past_end:
  assumes "a \<noteq> []" and "length a < m"
  shows "avg_val a m = NaN" and "max_val a m = NInf" and "min_val a m = PInf"
  using assms
  by (simp_all add: avg_val_def max_val_def min_val_def avg_loop_once max_loop_once min_loop_once)

lemma unstale_fst:
  "unstale tab m v \<Longrightarrow> (case tab m of Some w \<Rightarrow> w | None \<Rightarrow> v) = v"
  by (auto simp: unstale_def)

text \<open>
  C8 (as amended). For a non-empty sample array and \<open>m\<close> greater than its length, the
  step-by-\<open>m\<close> loops of the six windowed getters run their body exactly once, at
  \<open>i = 0\<close>; the block average there reads past the end of the array and is \<open>NaN\<close>.
  The two averages return \<open>NaN\<close>, the maxima \<open>-Infinity\<close> and the minima \<open>Infinity\<close>;
  every call returns a value. The entries of the table for \<open>m\<close> are absent or were
  stored from the current arrays.
\<close>

theorem factor_beyond_length:
  assumes "unstale (xavg (ds_values ds)) m (avg_val (ds_x ds) m)"
    and "unstale (xmax (ds_values ds)) m (max_val (ds_x ds) m)"
    and "unstale (xmin (ds_values ds)) m (min_val (ds_x ds) m)"
    and "unstale (yavg (ds_values ds)) m (avg_val (ds_y ds) m)"
    and "unstale (ymax (ds_values ds)) m (max_val (ds_y ds) m)"
    and "unstale (ymin (ds_values ds)) m (min_val (ds_y ds) m)"
  shows "(ds_x ds \<noteq> [] \<and> length (ds_x ds) < m \<longrightarrow>
            snd (avg_loop (ds_x ds) m (length (ds_x ds)) 0 (Num 0) []) = [0] \<and>
            snd (max_loop (ds_x ds) m (length (ds_x ds)) 0 NInf []) = [0] \<and>
            snd (min_loop (ds_x ds) m (length (ds_x ds)) 0 PInf []) = [0] \<and>
            fst (getPhaseAvg ds (Some m)) = NaN \<and>
            fst (getPhaseMax ds (Some m)) = NInf \<and>
            fst (getPhaseMin ds (Some m)) = PInf) \<and>
         (ds_y ds \<noteq> [] \<and> length (ds_y ds) < m \<longrightarrow>
            snd (avg_loop (ds_y ds) m (length (ds_y ds)) 0 (Num 0) []) = [0] \<and>
            snd (max_loop (ds_y ds) m (length (ds_y ds)) 0 NInf []) = [0] \<and>
            snd (min_loop (ds_y ds) m (length (ds_y ds)) 0 PInf []) = [0] \<and>
            fst (getFreqAvg ds (Some m)) = NaN \<and>
            fst (getFreqMax ds (Some m)) = NInf \<and>
            fst (getFreqMin ds (Some m)) = PInf)"
proof (intro conjI impI)
  assume x: "ds_x ds \<noteq> [] \<and> length (ds_x ds) < m"
  then have c: "coerce (Some m) = m" by (simp add: coerce_def)
  from x show "snd (avg_loop (ds_x ds) m (length (ds_x ds)) 0 (Num 0) []) = [0]"
    by (simp add: avg_loop_once)
  from x show "snd (max_loop (ds_x ds) m (length (ds_x ds)) 0 NInf []) = [0]"
    by (simp add: max_loop_once)
  from x show "snd (min_loop (ds_x ds) m (length (ds_x ds)) 0 PInf []) = [0]"
    by (simp add: min_loop_once)
  from x show "fst (getPhaseAvg ds (Some m)) = NaN"
    unfolding getPhaseAvg_fst c unstale_fst[OF assms(1)] by (simp add: vals_past_end)
  from x show "fst (getPhaseMax ds (Some m)) = NInf"
    unfolding getPhaseMax_fst c unstale_fst[OF assms(2)] by (simp add: vals_past_end)
  from x show "fst (getPhaseMin ds (Some m)) = PInf"
    unfolding getPhaseMin_fst c unstale_fst[OF assms(3)] by (simp add: vals_past_end)
next
  assume y: "ds_y ds \<noteq> [] \<and> length (ds_y ds) < m"
  then have c: "coerce (Some m) = m" by (simp add: coerce_def)
  from y show "snd (avg_loop (ds_y ds) m (length (ds_y ds)) 0 (Num 0) []) = [0]"
    by (simp add: avg_loop_once)
  from y show "snd (max_loop (ds_y ds) m (length (ds_y ds)) 0 NInf []) = [0]"
    by (simp add: max_loop_once)
  from y show "snd (min_loop (ds_y ds) m (length (ds_y ds)) 0 PInf []) = [0]"
    by (simp add: min_loop_once)
  from y show "fst (getFreqAvg ds (Some m)) = NaN"
    unfolding getFreqAvg_fst c unstale_fst[OF assms(4)] by (simp add: vals_past_end)
  from y show "fst (getFreqMax ds (Some m)) = NInf"
    unfolding getFreqMax_fst c unstale_fst[OF assms(5)] by (simp add: vals_past_end)
  from y show "fst (getFreqMin ds (Some m)) = PInf"
    unfolding getFreqMin_fst c unstale_fst[OF assms(6)] by (simp add: vals_past_end)
qed

theorem factor_beyond_length_witness:
  "ds_x (loadPhaseFromArray new_ds (map Num [5, 7])) \<noteq> [] \<and>
   length (ds_x (loadPhaseFromArray new_ds (map Num [5, 7]))) < 3 \<and>
   ds_y (loadPhaseFromArray new_ds (map Num [5, 7])) \<noteq> [] \<and>
   length (ds_y (loadPhaseFromArray new_ds (map Num [5, 7]))) < 3 \<and>
   fst (getPhaseAvg (loadPhaseFromArray new_ds (map Num [5, 7])) (Some 3)) = NaN \<and>
   fst (getPhaseMax (loadPhaseFromArray new_ds (map Num [5, 7])) (Some 3)) = NInf \<and>
   fst (getPhaseMin (loadPhaseFromArray new_ds (map Num [5, 7])) (Some 3)) = PInf \<and>
   fst (getFreqAvg (loadPhaseFromArray new_ds (map Num [5, 7])) (Some 3)) = NaN \<and>
   fst (getFreqMax (loadPhaseFromArray new_ds (map Num [5, 7])) (Some 3)) = NInf \<and>
   fst (getFreqMin (loadPhaseFromArray new_ds (map Num [5, 7])) (Some 3)) = PInf"
proof -
  let ?ds = "loadPhaseFromArray new_ds (map Num [5, 7])"
  have v: "ds_values ?ds = empty_values"
    by (simp add: loadPhaseFromArray_def new_ds_values)
  have u: "unstale (xavg (ds_values ?ds)) 3 (avg_val (ds_x ?ds) 3)"
    "unstale (xmax (ds_values ?ds)) 3 (max_val (ds_x ?ds) 3)"
    "unstale (xmin (ds_values ?ds)) 3 (min_val (ds_x ?ds) 3)"
    "unstale (yavg (ds_values ?ds)) 3 (avg_val (ds_y ?ds) 3)"
    "unstale (ymax (ds_values ?ds)) 3 (max_val (ds_y ?ds) 3)"
    "unstale (ymin (ds_values ?ds)) 3 (min_val (ds_y ?ds) 3)"
    unfolding v by (simp_all add: empty_values_def unstale_def)
  have x: "ds_x ?ds \<noteq> [] \<and> length (ds_x ?ds) < 3"
    by (simp add: loadPhaseFromArray_def)
  have "ds_y ?ds = map Num (diffs [5, 7] (real (coerce None)))"
    unfolding loadPhaseFromArray_def phaseToFreq_reals by (simp del: diffs.simps)
  then have y: "ds_y ?ds \<noteq> [] \<and> length (ds_y ?ds) < 3"
    by simp
  show ?thesis
    using factor_beyond_length[OF u] x y by simp
qed

text \<open>C8 as stated fails: on the one-sample phase array \<open>[5]\<close> with \<open>m = 2\<close> the
  loops of \<open>getPhaseAvg\<close> and \<open>getPhaseMax\<close> run for \<open>i = 0\<close>, not zero times.\<close>

theorem factor_beyond_length_counterexample:
  "ds_x (loadPhaseFromArray new_ds [Num 5]) \<noteq> [] \<and>
   length (ds_x (loadPhaseFromArray new_ds [Num 5])) < 2 \<and>
   snd (avg_loop (ds_x (loadPhaseFromArray new_ds [Num 5])) 2
          (length (ds_x (loadPhaseFromArray new_ds [Num 5]))) 0 (Num 0) []) = [0] \<and>
   snd (max_loop (ds_x (loadPhaseFromArray new_ds [Num 5])) 2
          (length (ds_x (loadPhaseFromArray new_ds [Num 5]))) 0 NInf []) = [0]"
  by (simp add: loadPhaseFromArray_def avg_loop.simps max_loop.simps Let_def)

section \<open>What a getter changes\<close>

lemma upd_same: "tab m = Some v \<Longrightarrow> tab(m \<mapsto> v) = tab"
  by (rule fun_upd_idem) simp

lemma frame_plain:
  "snd (getPhaseAvg ds marg) =
     ds\<lparr>ds_values := (ds_values ds)
       \<lparr>xavg := (xavg (ds_values ds))(coerce marg \<mapsto> fst (getPhaseAvg ds marg))\<rparr>\<rparr>"
  "snd (getFreqAvg ds marg) =
     ds\<lparr>ds_values := (ds_values ds)
       \<lparr>yavg := (yavg (ds_values ds))(coerce marg \<mapsto> fst (getFreqAvg ds marg))\<rparr>\<rparr>"
  "snd (getPhaseMax ds marg) =
     ds\<lparr>ds_values := (ds_values ds)
       \<lparr>xmax := (xmax (ds_values ds))(coerce marg \<mapsto> fst (getPhaseMax ds marg))\<rparr>\<rparr>"
  "snd (getFreqMax ds marg) =
     ds\<lparr>ds_values := (ds_values ds)
       \<lparr>ymax := (ymax (ds_values ds))(coerce marg \<mapsto> fst (getFreqMax ds marg))\<rparr>\<rparr>"
  "snd (getPhaseMin ds marg) =
     ds\<lparr>ds_values := (ds_values ds)
       \<lparr>xmin := (xmin (ds_values ds))(coerce marg \<mapsto> fst (getPhaseMin ds marg))\<rparr>\<rparr>"
  "snd (getFreqMin ds marg) =
     ds\<lparr>ds_values := (ds_values ds)
       \<lparr>ymin := (ymin (ds_values ds))(coerce marg \<mapsto> fst (getFreqMin ds marg))\<rparr>\<rparr>"
  by (simp_all add: getPhaseAvg_def getFreqAvg_def getPhaseMax_def getFreqMax_def getPhaseMin_def
      getFreqMin_def Let_def upd_same split: option.splits)

lemma frame_dev:
  "snd (getAdev ds marg) =
     ds\<lparr>ds_values := (ds_values ds)
       \<lparr>adev := (adev (ds_values ds))(coerce marg \<mapsto> fst (getAdev ds marg))\<rparr>\<rparr>"
  "snd (getOadev ds marg) =
     ds\<lparr>ds_values := (ds_values ds)
       \<lparr>oadev := (oadev (ds_values ds))(coerce marg \<mapsto> fst (getOadev ds marg))\<rparr>\<rparr>"
  "snd (getMdev ds marg) =
     ds\<lparr>ds_values := (ds_values ds)
       \<lparr>mdev := (mdev (ds_values ds))(coerce marg \<mapsto> fst (getMdev ds marg))\<rparr>\<rparr>"
  "snd (getHdev ds marg) =
     ds\<lparr>ds_values := (ds_values ds)
       \<lparr>hdev := (hdev (ds_values ds))(coerce marg \<mapsto> fst (getHdev ds marg))\<rparr>\<rparr>"
  "snd (getOhdev ds marg) =
     ds\<lparr>ds_values := (ds_values ds)
       \<lparr>ohdev := (ohdev (ds_values ds))(coerce marg \<mapsto> fst (getOhdev ds marg))\<rparr>\<rparr>"
  "snd (getTotdev ds marg) =
     ds\<lparr>ds_values := (ds_values ds)
       \<lparr>totdev := (totdev (ds_values ds))(coerce marg \<mapsto> fst (getTotdev ds marg))\<rparr>\<rparr>"
  "snd (getMtotdev ds marg) =
     ds\<lparr>ds_values := (ds_values ds)
       \<lparr>mtotdev := (mtotdev (ds_values ds))(coerce marg \<mapsto> fst (getMtotdev ds marg))\<rparr>\<rparr>"
  "snd (getHtotdev ds marg) =
     ds\<lparr>ds_values := (ds_values ds)
       \<lparr>htotdev := (htotdev (ds_values ds))(coerce marg \<mapsto> fst (getHtotdev ds marg))\<rparr>\<rparr>"
  by (simp_all add: getAdev_def getOadev_def getMdev_def getHdev_def getOhdev_def getTotdev_def
      getMtotdev_def getHtotdev_def Let_def upd_same split: option.splits)

lemma frame_getStdev:
  "snd (getStdev ds marg) =
     ds\<lparr>ds_values := (ds_values ds)
       \<lparr>yavg := (yavg (ds_values ds))
                 (coerce marg := yavg (ds_values (snd (getStdev ds marg))) (coerce marg)),
        stdev := (stdev (ds_values ds))(coerce marg \<mapsto> fst (getStdev ds marg))\<rparr>\<rparr>"
  using coerce_pos[of marg]
  by (simp add: getStdev_def getFreqAvg_def Let_def upd_same coerce_Some
      split: option.splits prod.splits)

lemma frame_getTdev:
  "snd (getTdev ds marg) =
     ds\<lparr>ds_values := (ds_values ds)
       \<lparr>mdev := (mdev (ds_values ds))
                 (coerce marg := mdev (ds_values (snd (getTdev ds marg))) (coerce marg)),
        tdev := (tdev (ds_values ds))(coerce marg \<mapsto> fst (getTdev ds marg))\<rparr>\<rparr>"
  using coerce_pos[of marg]
  by (simp add: getTdev_def getMdev_def Let_def upd_same coerce_Some
      split: option.splits prod.splits)

lemma frame_getTtotdev:
  "snd (getTtotdev ds marg) =
     ds\<lparr>ds_values := (ds_values ds)
       \<lparr>mtotdev := (mtotdev (ds_values ds))
                 (coerce marg := mtotdev (ds_values (snd (getTtotdev ds marg))) (coerce marg)),
        ttotdev := (ttotdev (ds_values ds))(coerce marg \<mapsto> fst (getTtotdev ds marg))\<rparr>\<rparr>"
  using coerce_pos[of marg]
  by (simp add: getTtotdev_def getMtotdev_def Let_def upd_same coerce_Some
      split: option.splits prod.splits)

lemma same_samples_upd: "same_samples ds (ds\<lparr>ds_values := v\<rparr>)"
  by (simp add: same_samples_def)

lemma same_samples_getters:
  "same_samples ds (snd (getPhaseAvg ds marg))" "same_samples ds (snd (getFreqAvg ds marg))"
  "same_samples ds (snd (getPhaseMax ds marg))" "same_samples ds (snd (getFreqMax ds marg))"
  "same_samples ds (snd (getPhaseMin ds marg))" "same_samples ds (snd (getFreqMin ds marg))"
  "same_samples ds (snd (getAdev ds marg))" "same_samples ds (snd (getOadev ds marg))"
  "same_samples ds (snd (getMdev ds marg))" "same_samples ds (snd (getHdev ds marg))"
  "same_samples ds (snd (getOhdev ds marg))" "same_samples ds (snd (getTotdev ds marg))"
  "same_samples ds (snd (getMtotdev ds marg))" "same_samples ds (snd (getHtotdev ds marg))"
  "same_samples ds (snd (getStdev ds marg))" "same_samples ds (snd (getTdev ds marg))"
  "same_samples ds (snd (getTtotdev ds marg))"
  by (subst frame_plain frame_dev frame_getStdev frame_getTdev frame_getTtotdev,
      rule same_samples_upd)+

text \<open>
  C9 (as amended). Every getter, for any \<open>m\<close>, leaves the sample arrays \<open>x\<close> and
  \<open>y\<close> (and the identifier and the name) unchanged. The dataset after the call is the
  dataset before it with the getter's own entry for \<open>m\<close> (after coercion) set to the
  value returned; \<open>getStdev\<close>, \<open>getTdev\<close> and \<open>getTtotdev\<close> also leave behind the
  entry for \<open>m\<close> of the getter they call (\<open>yavg\<close>, \<open>mdev\<close>, \<open>mtotdev\<close>). Nothing
  else changes; \<open>getTotdev\<close> reflects a copy of \<open>x\<close>.
\<close>

theorem getters_frame:
  "same_samples ds (snd (getPhaseAvg ds marg)) \<and>
   snd (getPhaseAvg ds marg) =
     ds\<lparr>ds_values := (ds_values ds)
       \<lparr>xavg := (xavg (ds_values ds))(coerce marg \<mapsto> fst (getPhaseAvg ds marg))\<rparr>\<rparr> \<and>
   same_samples ds (snd (getFreqAvg ds marg)) \<and>
   snd (getFreqAvg ds marg) =
     ds\<lparr>ds_values := (ds_values ds)
       \<lparr>yavg := (yavg (ds_values ds))(coerce marg \<mapsto> fst (getFreqAvg ds marg))\<rparr>\<rparr> \<and>
   same_samples ds (snd (getPhaseMax ds marg)) \<and>
   snd (getPhaseMax ds marg) =
     ds\<lparr>ds_values := (ds_values ds)
       \<lparr>xmax := (xmax (ds_values ds))(coerce marg \<mapsto> fst (getPhaseMax ds marg))\<rparr>\<rparr> \<and>
   same_samples ds (snd (getFreqMax ds marg)) \<and>
   snd (getFreqMax ds marg) =
     ds\<lparr>ds_values := (ds_values ds)
       \<lparr>ymax := (ymax (ds_values ds))(coerce marg \<mapsto> fst (getFreqMax ds marg))\<rparr>\<rparr> \<and>
   same_samples ds (snd (getPhaseMin ds marg)) \<and>
   snd (getPhaseMin ds marg) =
     ds\<lparr>ds_values := (ds_values ds)
       \<lparr>xmin := (xmin (ds_values ds))(coerce marg \<mapsto> fst (getPhaseMin ds marg))\<rparr>\<rparr> \<and>
   same_samples ds (snd (getFreqMin ds marg)) \<and>
   snd (getFreqMin ds marg) =
     ds\<lparr>ds_values := (ds_values ds)
       \<lparr>ymin := (ymin (ds_values ds))(coerce marg \<mapsto> fst (getFreqMin ds marg))\<rparr>\<rparr> \<and>
   same_samples ds (snd (getAdev ds marg)) \<and>
   snd (getAdev ds marg) =
     ds\<lparr>ds_values := (ds_values ds)
       \<lparr>adev := (adev (ds_values ds))(coerce marg \<mapsto> fst (getAdev ds marg))\<rparr>\<rparr> \<and>
   same_samples ds (snd (getOadev ds marg)) \<and>
   snd (getOadev ds marg) =
     ds\<lparr>ds_values := (ds_values ds)
       \<lparr>oadev := (oadev (ds_values ds))(coerce marg \<mapsto> fst (getOadev ds marg))\<rparr>\<rparr> \<and>
   same_samples ds (snd (getMdev ds marg)) \<and>
   snd (getMdev ds marg) =
     ds\<lparr>ds_values := (ds_values ds)
       \<lparr>mdev := (mdev (ds_values ds))(coerce marg \<mapsto> fst (getMdev ds marg))\<rparr>\<rparr> \<and>
   same_samples ds (snd (getHdev ds marg)) \<and>
   snd (getHdev ds marg) =
     ds\<lparr>ds_values := (ds_values ds)
       \<lparr>hdev := (hdev (ds_values ds))(coerce marg \<mapsto> fst (getHdev ds marg))\<rparr>\<rparr> \<and>
   same_samples ds (snd (getOhdev ds marg)) \<and>
   snd (getOhdev ds marg) =
     ds\<lparr>ds_values := (ds_values ds)
       \<lparr>ohdev := (ohdev (ds_values ds))(coerce marg \<mapsto> fst (getOhdev ds marg))\<rparr>\<rparr> \<and>
   same_samples ds (snd (getTotdev ds marg)) \<and>
   snd (getTotdev ds marg) =
     ds\<lparr>ds_values := (ds_values ds)
       \<lparr>totdev := (totdev (ds_values ds))(coerce marg \<mapsto> fst (getTotdev ds marg))\<rparr>\<rparr> \<and>
   same_samples ds (snd (getMtotdev ds marg)) \<and>
   snd (getMtotdev ds marg) =
     ds\<lparr>ds_values := (ds_values ds)
       \<lparr>mtotdev := (mtotdev (ds_values ds))(coerce marg \<mapsto> fst (getMtotdev ds marg))\<rparr>\<rparr> \<and>
   same_samples ds (snd (getHtotdev ds marg)) \<and>
   snd (getHtotdev ds marg) =
     ds\<lparr>ds_values := (ds_values ds)
       \<lparr>htotdev := (htotdev (ds_values ds))(coerce marg \<mapsto> fst (getHtotdev ds marg))\<rparr>\<rparr> \<and>
   same_samples ds (snd (getStdev ds marg)) \<and>
   snd (getStdev ds marg) =
     ds\<lparr>ds_values := (ds_values ds)
       \<lparr>yavg := (yavg (ds_values ds))
                 (coerce marg := yavg (ds_values (snd (getStdev ds marg))) (coerce marg)),
        stdev := (stdev (ds_values ds))(coerce marg \<mapsto> fst (getStdev ds marg))\<rparr>\<rparr> \<and>
   same_samples ds (snd (getTdev ds marg)) \<and>
   snd (getTdev ds marg) =
     ds\<lparr>ds_values := (ds_values ds)
       \<lparr>mdev := (mdev (ds_values ds))
                 (coerce marg := mdev (ds_values (snd (getTdev ds marg))) (coerce marg)),
        tdev := (tdev (ds_values ds))(coerce marg \<mapsto> fst (getTdev ds marg))\<rparr>\<rparr> \<and>
   same_samples ds (snd (getTtotdev ds marg)) \<and>
   snd (getTtotdev ds marg) =
     ds\<lparr>ds_values := (ds_values ds)
       \<lparr>mtotdev := (mtotdev (ds_values ds))
                 (coerce marg := mtotdev (ds_values (snd (getTtotdev ds marg))) (coerce marg)),
        ttotdev := (ttotdev (ds_values ds))(coerce marg \<mapsto> fst (getTtotdev ds marg))\<rparr>\<rparr>"
  by (intro conjI same_samples_getters frame_plain frame_dev frame_getStdev frame_getTdev
      frame_getTtotdev)

text \<open>C9 as stated fails: \<open>getTdev(1)\<close> on a freshly loaded dataset stores an
  entry in \<open>mdev\<close>, which is not the entry of \<open>tdev\<close> that corresponds to the call.\<close>

theorem getters_frame_counterexample:
  "mdev (ds_values (loadPhaseFromArray new_ds [Num 0, Num 1, Num 2])) 1 = None \<and>
   mdev (ds_values (snd (getTdev (loadPhaseFromArray new_ds [Num 0, Num 1, Num 2]) (Some 1)))) 1
     = Some (Num 0)"
  by (simp add: getTdev_def getMdev_def loadPhaseFromArray_def new_ds_values empty_values_def
      coerce_def Let_def mdev_val_def mdev_acc_def mdev_loop1.simps mdev_loop2.simps
      MIN_SAMPLES_def diff2_def rd_def jsub_def)

section \<open>Windowed average\<close>

lemma arrayAvg_loop_fold:
  "arrayAvg_loop a i m j avg = foldl jadd avg (map (\<lambda>k. rd a (i + k)) [j..<m])"
proof (induction a i m j avg rule: arrayAvg_loop.induct)
  case (1 a i m j avg)
  show ?case
  proof (cases "j < m")
    case True
    then show ?thesis
      using "1.IH"[OF True]
      by (subst arrayAvg_loop.simps) (simp add: upt_conv_Cons)
  next
    case False
    then show ?thesis by (subst arrayAvg_loop.simps) simp
  qed
qed

lemma arrayAvg_block_mean: "arrayAvg i m a = block_mean a i m"
proof -
  have "map (\<lambda>k. rd a (i + k)) [0..<m] = map (rd a) (map (\<lambda>k. k + i) [0..<m])"
    by (simp add: add.commute)
  also have "\<dots> = map (rd a) [i..<i + m]"
    by (simp only: map_add_upt add.commute)
  finally show ?thesis
    by (simp add: arrayAvg_def block_mean_def arrayAvg_loop_fold)
qed

lemma steps_count:
  assumes "i < len" and "0 < m"
  shows "(len - i + m - 1) div m = Suc ((len - (i + m) + m - 1) div m)"
proof (cases "i + m \<le> len")
  case True
  have g: "\<And>k. (k + m) div m = Suc (k div m)" using assms(2) by simp
  have e: "len - i + m - 1 = (len - (i + m) + m - 1) + m" using assms True by simp
  have "(len - i + m - 1) div m = ((len - (i + m) + m - 1) + m) div m"
    by (subst e) (rule refl)
  also have "\<dots> = Suc ((len - (i + m) + m - 1) div m)"
    by (rule g)
  finally show ?thesis .
next
  case False
  have g: "\<And>k. (k + m) div m = Suc (k div m)" using assms(2) by simp
  have e: "len - i + m - 1 = (len - i - 1) + m" using assms by simp
  have z1: "(len - i - 1) div m = 0" using False assms by simp
  have z2: "(len - (i + m) + m - 1) div m = 0" using False assms by simp
  have "(len - i + m - 1) div m = ((len - i - 1) + m) div m"
    by (subst e) (rule refl)
  also have "\<dots> = Suc ((len - i - 1) div m)"
    by (rule g)
  finally show ?thesis unfolding z1 z2 .
qed

lemma avg_loop_fold:
  "0 < m \<Longrightarrow>
   avg_loop a m len i sm vis =
     (foldl jadd sm (map (\<lambda>j. arrayAvg j m a) (map (\<lambda>k. i + k * m) [0..<(len - i + m - 1) div m])),
      vis @ map (\<lambda>k. i + k * m) [0..<(len - i + m - 1) div m])"
proof (induction a m len i sm vis rule: avg_loop.induct)
  case (1 a m len i sm vis)
  show ?case
  proof (cases "i < len")
    case True
    let ?c = "(len - (i + m) + m - 1) div m"
    have c: "(len - i + m - 1) div m = Suc ?c"
      using True "1.prems" by (rule steps_count)
    have "[0..<Suc ?c] = 0 # map Suc [0..<?c]"
      by (simp only: map_Suc_upt upt_conv_Cons[of 0] zero_less_Suc)
    then have st: "map (\<lambda>k. i + k * m) [0..<Suc ?c] = i # map (\<lambda>k. i + m + k * m) [0..<?c]"
      by (simp add: o_def add.assoc del: upt_Suc)
    have step: "avg_loop a m len i sm vis =
          avg_loop a m len (i + m) (jadd sm (arrayAvg i m a)) (vis @ [i])"
      using True "1.prems" by (subst avg_loop.simps) simp
    have ih: "avg_loop a m len (i + m) (jadd sm (arrayAvg i m a)) (vis @ [i]) =
          (foldl jadd (jadd sm (arrayAvg i m a))
             (map (\<lambda>j. arrayAvg j m a) (map (\<lambda>k. i + m + k * m) [0..<?c])),
           (vis @ [i]) @ map (\<lambda>k. i + m + k * m) [0..<?c])"
      using "1.IH" True "1.prems" by simp
    show ?thesis
      unfolding step ih c st by simp
  next
    case False
    then have "(len - i + m - 1) div m = 0" using "1.prems" by simp
    then show ?thesis using False by (subst avg_loop.simps) simp
  qed
qed

lemma avg_val_spec: "0 < m \<Longrightarrow> avg_val a m = avg_spec a m"
  using avg_loop_fold[of m a "length a" 0 "Num 0" "[]"]
  by (simp add: avg_val_def avg_spec_def Let_def arrayAvg_block_mean o_def)

text \<open>
  C6. For a sample array \<open>a\<close> (\<open>x\<close> for \<open>getPhaseAvg\<close>, \<open>y\<close> for \<open>getFreqAvg\<close>) and
  \<open>m \<ge> 1\<close>, the windowed average is the sum of the block averages taken at
  \<open>i = 0, m, 2m, ...\<close> for \<open>i < len\<close>, multiplied by \<open>m\<close> and divided by \<open>len\<close>: the
  formula \<open>sum * m / len\<close>. The entries of the table for \<open>m\<close> are absent or were
  stored from the current arrays.
\<close>

theorem windowed_average_formula:
  assumes "1 \<le> m"
    and "unstale (xavg (ds_values ds)) m (avg_val (ds_x ds) m)"
    and "unstale (yavg (ds_values ds)) m (avg_val (ds_y ds) m)"
  shows "fst (getPhaseAvg ds (Some m)) = avg_spec (ds_x ds) m \<and>
         fst (getFreqAvg ds (Some m)) = avg_spec (ds_y ds) m"
proof -
  have c: "coerce (Some m) = m" using assms(1) by (rule coerce_Some)
  have m: "0 < m" using assms(1) by simp
  have "fst (getPhaseAvg ds (Some m)) = avg_val (ds_x ds) m"
    unfolding getPhaseAvg_fst c by (rule unstale_fst[OF assms(2)])
  moreover have "fst (getFreqAvg ds (Some m)) = avg_val (ds_y ds) m"
    unfolding getFreqAvg_fst c by (rule unstale_fst[OF assms(3)])
  ultimately show ?thesis
    by (simp add: avg_val_spec[OF m])
qed

theorem windowed_average_formula_witness:
  "(1::nat) \<le> 2 \<and>
   fst (getPhaseAvg (loadFreqFromArray new_ds (map Num [1, 2, 3, 4])) (Some 2)) = NaN \<and>
   fst (getFreqAvg (loadFreqFromArray new_ds (map Num [1, 2, 3, 4])) (Some 2)) = Num (5 / 2)"
proof -
  let ?ds = "loadFreqFromArray new_ds (map Num [1, 2, 3, 4])"
  have v: "ds_values ?ds = empty_values"
    by (simp add: loadFreqFromArray_def new_ds_values)
  have u: "unstale (xavg (ds_values ?ds)) 2 (avg_val (ds_x ?ds) 2)"
    "unstale (yavg (ds_values ?ds)) 2 (avg_val (ds_y ?ds) 2)"
    unfolding v by (simp_all add: empty_values_def unstale_def)
  have x: "ds_x ?ds = map Num [0, 1, 3, 6, 10]"
    unfolding loadFreqFromArray_def freqToPhase_reals by (simp add: coerce_def)
  have y: "ds_y ?ds = map Num [1, 2, 3, 4]"
    by (simp add: loadFreqFromArray_def)
  have two: "(1::nat) \<le> 2" by simp
  have ax: "avg_spec (map Num [0, 1, 3, 6, 10]) 2 = NaN"
    by (simp add: avg_spec_def block_mean_def rd_def upt_rec[of _ "numeral _"] upt_rec[of _ "Suc _"])
  have ay: "avg_spec (map Num [1, 2, 3, 4]) 2 = Num (5 / 2)"
    by (simp add: avg_spec_def block_mean_def rd_def upt_rec[of _ "numeral _"] upt_rec[of _ "Suc _"])
  show ?thesis
    using windowed_average_formula[OF two u] unfolding x y ax ay by simp
qed

section \<open>TOTDEV\<close>

lemma totdev_ext_loop_eq:
  "totdev_ext_loop xs len i nx e =
     (map (\<lambda>i. jsub (jmul (Num 2) (rd xs 0)) (rd xs i)) (rev [i..<len - 1])
        @ nx
        @ map (\<lambda>i. jsub (jmul (Num 2) (rd xs (len - 1))) (rd xs (len - 1 - i))) [i..<len - 1],
      e + (len - 1 - i))"
proof (induction xs len i nx e rule: totdev_ext_loop.induct)
  case (1 xs len i nx e)
  show ?case
  proof (cases "int i < int len - 1")
    case True
    then have lt: "i < len - 1" by linarith
    show ?thesis
      using True lt "1.IH"[OF True]
      by (subst totdev_ext_loop.simps) (simp add: upt_conv_Cons)
  next
    case False
    then have "\<not> i < len - 1" by linarith
    then show ?thesis using False by (subst totdev_ext_loop.simps) simp
  qed
qed

lemma totdev_sum_loop_fold:
  "totdev_sum_loop nx e m len i sm n =
     (foldl jadd sm
        (map (\<lambda>v. jmul v v)
           (map (\<lambda>i. jadd (jsub (rd_int nx (int e + int i - int m)) (jmul (Num 2) (rd nx (e + i))))
                          (rd nx (e + i + m)))
              [i..<len - 1])),
      n + (len - 1 - i))"
proof (induction nx e m len i sm n rule: totdev_sum_loop.induct)
  case (1 nx e m len i sm n)
  show ?case
  proof (cases "int i < int len - 1")
    case True
    then have lt: "i < len - 1" by linarith
    show ?thesis
      using True lt "1.IH"[OF True refl]
      by (subst totdev_sum_loop.simps) (simp add: upt_conv_Cons Let_def)
  next
    case False
    then have "\<not> i < len - 1" by linarith
    then show ?thesis using False by (subst totdev_sum_loop.simps) simp
  qed
qed

lemma totdev_ext_mirror:
  "2 \<le> length xs \<Longrightarrow>
   totdev_ext_loop xs (length xs) 1 xs 0 = (mirror_ext xs, length xs - 2)"
proof -
  assume len: "2 \<le> length xs"
  have a: "map (\<lambda>i. jsub (jmul (Num 2) (rd xs 0)) (rd xs i)) (rev [1..<length xs - 1]) =
           map (\<lambda>i. jsub (jmul (Num 2) (xs ! 0)) (xs ! i)) (rev [1..<length xs - 1])"
    using len by (auto simp: rd_def)
  have b: "map (\<lambda>i. jsub (jmul (Num 2) (rd xs (length xs - 1))) (rd xs (length xs - 1 - i)))
             [1..<length xs - 1] =
           map (\<lambda>i. jsub (jmul (Num 2) (xs ! (length xs - 1))) (xs ! (length xs - 1 - i)))
             [1..<length xs - 1]"
    using len by (auto simp: rd_def)
  show ?thesis
    unfolding totdev_ext_loop_eq a b mirror_ext_def Let_def using len by simp
qed

lemma length_mirror_ext: "2 \<le> length xs \<Longrightarrow> length (mirror_ext xs) = 3 * length xs - 4"
  by (simp add: mirror_ext_def Let_def)

lemma totdev_acc_eq:
  assumes len: "2 \<le> length xs"
  shows "totdev_acc xs m =
     (if int (length xs - 2) + int (length xs) + int m - 1 \<le> 3 * int (length xs) - 4
      then (jdiv (foldl jadd (Num 0)
              (map (\<lambda>v. jmul v v)
                 (map (\<lambda>i. jadd (jsub (rd_int (mirror_ext xs) (int (length xs - 2) + int i - int m))
                                      (jmul (Num 2) (rd (mirror_ext xs) (length xs - 2 + i))))
                                (rd (mirror_ext xs) (length xs - 2 + i + m)))
                    [1..<length xs - 1]))) (Num 2),
            length xs - 2)
      else (Num 0, 0))"
  unfolding totdev_acc_def Let_def totdev_ext_mirror[OF len] prod.case totdev_sum_loop_fold
  using len by (simp only: add_0 diff_diff_left one_add_one)

lemma totdev_terms_in_range:
  assumes len: "2 \<le> length xs" and m: "m + 1 \<le> length xs"
    and i: "1 \<le> i" "i < length xs - 1"
  shows "jadd (jsub (rd_int (mirror_ext xs) (int (length xs - 2) + int i - int m))
                    (jmul (Num 2) (rd (mirror_ext xs) (length xs - 2 + i))))
              (rd (mirror_ext xs) (length xs - 2 + i + m)) =
         jadd (jsub (mirror_ext xs ! (length xs - 2 + i - m))
                    (jmul (Num 2) (mirror_ext xs ! (length xs - 2 + i))))
              (mirror_ext xs ! (length xs - 2 + i + m))"
proof -
  have L: "length (mirror_ext xs) = 3 * length xs - 4"
    using len by (rule length_mirror_ext)
  have k: "int (length xs - 2) + int i - int m = int (length xs - 2 + i - m)"
    using i m len by linarith
  have r1: "length xs - 2 + i - m < 3 * length xs - 4" using i m len by linarith
  have r2: "length xs - 2 + i < 3 * length xs - 4" using i m len by linarith
  have r3: "length xs - 2 + i + m < 3 * length xs - 4" using i m len by linarith
  show ?thesis
    unfolding k rd_int_def rd_def L using r1 r2 r3 by simp
qed

lemma totdev_val_spec:
  assumes len: "2 \<le> length xs"
  shows "totdev_val xs m = totdev_spec xs m"
proof (cases "int (length xs - 2) + int (length xs) + int m - 1 \<le> 3 * int (length xs) - 4")
  case True
  then have m: "m + 1 \<le> length xs" using len by linarith
  have t: "map (\<lambda>i. jadd (jsub (rd_int (mirror_ext xs) (int (length xs - 2) + int i - int m))
                                      (jmul (Num 2) (rd (mirror_ext xs) (length xs - 2 + i))))
                                (rd (mirror_ext xs) (length xs - 2 + i + m)))
                    [1..<length xs - 1] =
           map (\<lambda>i. jadd (jsub (mirror_ext xs ! (length xs - 2 + i - m))
                    (jmul (Num 2) (mirror_ext xs ! (length xs - 2 + i))))
              (mirror_ext xs ! (length xs - 2 + i + m))) [1..<length xs - 1]"
    by (rule map_cong[OF refl]) (simp add: totdev_terms_in_range[OF len m])
  have "totdev_val xs m =
        (let vs = map (\<lambda>i. jadd (jsub (mirror_ext xs ! (length xs - 2 + i - m))
                    (jmul (Num 2) (mirror_ext xs ! (length xs - 2 + i))))
              (mirror_ext xs ! (length xs - 2 + i + m))) [1..<length xs - 1];
             sm = jdiv (foldl jadd (Num 0) (map (\<lambda>v. jmul v v) vs)) (Num 2);
             n = length vs
         in if n > 3 then jdiv (jsqrt (jdiv sm (num n))) (num m) else Num 0)"
    unfolding totdev_val_def totdev_acc_eq[OF len] if_P[OF True] t Let_def prod.case
    by (simp add: MIN_SAMPLES_def numeral_2_eq_2)
  also have "\<dots> = totdev_spec xs m"
    unfolding totdev_spec_def Let_def if_P[OF True] ..
  finally show ?thesis .
next
  case False
  have "totdev_val xs m = Num 0"
    unfolding totdev_val_def totdev_acc_eq[OF len] if_not_P[OF False] Let_def prod.case
    by (simp add: MIN_SAMPLES_def)
  also have "\<dots> = totdev_spec xs m"
    unfolding totdev_spec_def Let_def if_not_P[OF False] ..
  finally show ?thesis .
qed

text \<open>
  C7. For a phase array of length \<open>N \<ge> 2\<close> and \<open>m \<ge> 1\<close>, \<open>getTotdev(m)\<close> extends
  \<open>x\<close> by mirror reflection at both ends and, only when the guard
  \<open>e + len + m - 1 <= 3*len - 4\<close> holds, accumulates the centred second differences
  over \<open>i = 1..N-2\<close>, halves the sum and returns \<open>sqrt(sum / n) / m\<close> when \<open>n > 3\<close>;
  when the guard fails the result is \<open>0\<close>. The entry of the table for \<open>m\<close> is absent
  or was stored from the current array.
\<close>

theorem getTotdev_formula:
  assumes "1 \<le> m" and "2 \<le> length (ds_x ds)"
    and "unstale (totdev (ds_values ds)) m (totdev_val (ds_x ds) m)"
  shows "fst (getTotdev ds (Some m)) = totdev_spec (ds_x ds) m"
proof -
  have c: "coerce (Some m) = m" using assms(1) by (rule coerce_Some)
  show ?thesis
    unfolding getTotdev_fst c unstale_fst[OF assms(3)] by (rule totdev_val_spec[OF assms(2)])
qed

theorem getTotdev_formula_witness:
  "(1::nat) \<le> 1 \<and>
   2 \<le> length (ds_x (loadPhaseFromArray new_ds (map Num [0, 1, 4, 9, 16, 25]))) \<and>
   mirror_ext (ds_x (loadPhaseFromArray new_ds (map Num [0, 1, 4, 9, 16, 25]))) =
     map Num [-16, -9, -4, -1, 0, 1, 4, 9, 16, 25, 34, 41, 46, 49] \<and>
   fst (getTotdev (loadPhaseFromArray new_ds (map Num [0, 1, 4, 9, 16, 25])) (Some 1)) = Num (sqrt 2)"
proof -
  let ?ds = "loadPhaseFromArray new_ds (map Num [0, 1, 4, 9, 16, 25])"
  have x: "ds_x ?ds = map Num [0, 1, 4, 9, 16, 25]"
    by (simp add: loadPhaseFromArray_def)
  have u: "unstale (totdev (ds_values ?ds)) 1 (totdev_val (ds_x ?ds) 1)"
    by (simp add: unstale_def loadPhaseFromArray_def new_ds_values empty_values_def)
  have l: "2 \<le> length (ds_x ?ds)" unfolding x by simp
  have one: "(1::nat) \<le> 1" by simp
  have e: "mirror_ext (map Num [0, 1, 4, 9, 16, 25]) =
      map Num [-16, -9, -4, -1, 0, 1, 4, 9, 16, 25, 34, 41, 46, 49]"
    by (simp add: mirror_ext_def jsub_def upt_rec[of _ "numeral _"] upt_rec[of _ "Suc _"])
  have "totdev_spec (map Num [0, 1, 4, 9, 16, 25]) 1 = Num (sqrt 2)"
    unfolding totdev_spec_def e
    by (simp add: jsub_def upt_rec[of _ "numeral _"] upt_rec[of _ "Suc _"])
  then show ?thesis
    using getTotdev_formula[OF one l u] l e unfolding x by simp
qed

section \<open>Datasets loaded once\<close>

text \<open>In every dataset of the lifecycle, each entry of the table is absent or is the
  value the current arrays give: the hypotheses \<open>unstale\<close> of the theorems on single
  getters hold there.\<close>

lemma tab_current_empty: "tab_current Map.empty f"
  by (simp add: tab_current_def unstale_def)

lemma tab_current_put:
  "tab_current tab f \<Longrightarrow>
   tab_current (tab(m \<mapsto> (case tab m of Some w \<Rightarrow> w | None \<Rightarrow> f m))) f"
  unfolding tab_current_def unstale_def
  by (metis fun_upd_apply option.simps(4) option.simps(5))

lemma tab_current_upd: "tab_current tab f \<Longrightarrow> v = f m \<Longrightarrow> tab_current (tab(m \<mapsto> v)) f"
  unfolding tab_current_def unstale_def by simp

lemma tab_current_Some: "tab m = Some v \<Longrightarrow> tab_current tab f \<Longrightarrow> v = f m"
  unfolding tab_current_def unstale_def by (metis option.distinct(1) option.inject)

lemma current_plain:
  "current ds \<Longrightarrow> current (snd (getPhaseAvg ds marg))"
  "current ds \<Longrightarrow> current (snd (getFreqAvg ds marg))"
  "current ds \<Longrightarrow> current (snd (getPhaseMax ds marg))"
  "current ds \<Longrightarrow> current (snd (getFreqMax ds marg))"
  "current ds \<Longrightarrow> current (snd (getPhaseMin ds marg))"
  "current ds \<Longrightarrow> current (snd (getFreqMin ds marg))"
  unfolding frame_plain getter_fst current_def
  by (simp_all add: tab_current_put)

lemma current_dev:
  "current ds \<Longrightarrow> current (snd (getAdev ds marg))"
  "current ds \<Longrightarrow> current (snd (getOadev ds marg))"
  "current ds \<Longrightarrow> current (snd (getMdev ds marg))"
  "current ds \<Longrightarrow> current (snd (getHdev ds marg))"
  "current ds \<Longrightarrow> current (snd (getOhdev ds marg))"
  "current ds \<Longrightarrow> current (snd (getTotdev ds marg))"
  unfolding frame_dev getter_fst current_def
  by (simp_all add: tab_current_put)

lemma current_getMtotdev:
  assumes "current ds" and "1 \<le> m"
  shows "current (snd (getMtotdev ds (Some m)))"
proof -
  have c: "coerce (Some m) = m" using assms(2) by (rule coerce_Some)
  show ?thesis
    using assms(1)
      tab_current_put[of "mtotdev (ds_values ds)" "\<lambda>m. mtotdev_val (ds_x ds) m (half_of (Some m))" m]
    unfolding frame_dev getter_fst current_def c by simp
qed

lemma current_getHtotdev:
  assumes "current ds" and "1 \<le> m"
  shows "current (snd (getHtotdev ds (Some m)))"
proof -
  have c: "coerce (Some m) = m" using assms(2) by (rule coerce_Some)
  show ?thesis
    using assms(1)
      tab_current_put[of "htotdev (ds_values ds)" "\<lambda>m. htotdev_val (ds_y ds) m (half_of (Some m))" m]
    unfolding frame_dev getter_fst current_def c by simp
qed

lemma current_getStdev: "current ds \<Longrightarrow> current (snd (getStdev ds marg))"
  using coerce_pos[of marg]
  unfolding current_def getStdev_def getFreqAvg_def Let_def
  by (auto simp: coerce_Some intro!: tab_current_upd dest: tab_current_Some split: option.splits)

lemma current_getTdev: "current ds \<Longrightarrow> current (snd (getTdev ds marg))"
  using coerce_pos[of marg]
  unfolding current_def getTdev_def getMdev_def Let_def
  by (auto simp: coerce_Some tdev_of_def intro!: tab_current_upd dest: tab_current_Some
      split: option.splits)

lemma current_getTtotdev: "current ds \<Longrightarrow> current (snd (getTtotdev ds marg))"
  using coerce_pos[of marg]
  unfolding current_def getTtotdev_def getMtotdev_def Let_def
  by (auto simp: coerce_Some tdev_of_def intro!: tab_current_upd dest: tab_current_Some
      split: option.splits)

lemma current_loaded:
  "current (loadPhaseFromArray (fst (Dataset c nm now)) a)"
  "current (loadFreqFromArray (fst (Dataset c nm now)) a)"
  by (simp_all add: current_def loadPhaseFromArray_def loadFreqFromArray_def Dataset_def
      empty_values_def tab_current_empty)

lemma loaded_once_current: "loaded_once ds \<Longrightarrow> current ds"
  by (induction rule: loaded_once.induct)
     (simp_all add: current_loaded current_plain current_dev current_getMtotdev current_getHtotdev current_getStdev
       current_getTdev current_getTtotdev)

lemma current_unstale:
  assumes "current ds"
  shows "unstale (xavg (ds_values ds)) m (avg_val (ds_x ds) m)"
    and "unstale (xmax (ds_values ds)) m (max_val (ds_x ds) m)"
    and "unstale (xmin (ds_values ds)) m (min_val (ds_x ds) m)"
    and "unstale (yavg (ds_values ds)) m (avg_val (ds_y ds) m)"
    and "unstale (ymax (ds_values ds)) m (max_val (ds_y ds) m)"
    and "unstale (ymin (ds_values ds)) m (min_val (ds_y ds) m)"
    and "unstale (adev (ds_values ds)) m (adev_val (ds_x ds) m)"
    and "unstale (oadev (ds_values ds)) m (oadev_val (ds_x ds) m)"
    and "unstale (mdev (ds_values ds)) m (mdev_val (ds_x ds) m)"
    and "unstale (hdev (ds_values ds)) m (hdev_val (ds_x ds) m)"
    and "unstale (ohdev (ds_values ds)) m (ohdev_val (ds_x ds) m)"
    and "unstale (totdev (ds_values ds)) m (totdev_val (ds_x ds) m)"
    and "unstale (mtotdev (ds_values ds)) m (mtotdev_val (ds_x ds) m (half_of (Some m)))"
    and "unstale (htotdev (ds_values ds)) m (htotdev_val (ds_y ds) m (half_of (Some m)))"
  using assms by (simp_all add: current_def tab_current_def)

end
